theory Spec2Isabelle
  imports
    Main
    "HOL-Library.Word"
    "HOL-Library.AList"
    "HOL-Library.Char_ord"
    "HOL-Library.List_Lexorder"
begin

unbundle bit_operations_syntax

section \<open>Bytes, errors and the Go library functions the datastore calls\<close>

text \<open>
  A Go \<^verbatim>\<open>string\<close> and a \<^verbatim>\<open>[]byte\<close> are both sequences of bytes; the conversions
  between them copy and are the identity here. Go's \<^verbatim>\<open>int\<close> is taken as the 64-bit
  one; lengths and offsets of data that exists in memory or on disk never reach
  \<open>2 ^ 63\<close>, so they are \<open>nat\<close> or \<open>int\<close>, and the one place where the code
  narrows a length, \<^verbatim>\<open>uint32(...)\<close>, is a conversion to \<open>32 word\<close>.
\<close>

type_synonym byte = "8 word"
type_synonym bytes = "byte list"
type_synonym u32 = "32 word"

text \<open>
  Error values. \<open>EOF\<close> is \<^verbatim>\<open>io.EOF\<close>; the constructors with an argument of type
  \<open>err\<close> are the \<^verbatim>\<open>fmt.Errorf("...: %w", err)\<close> wrappers of the source;
  \<open>ErrHashMismatch\<close> is \<^verbatim>\<open>fmt.Errorf("hash mismatch for key %s", e.key)\<close>, which wraps
  nothing. \<open>ErrNotExist\<close>, \<open>ErrClosed\<close> and \<open>ErrInvalid\<close> are the errors of package os
  for a missing file, a closed handle and a nil handle (or a negative seek offset). The
  last two constructors are not errors that a function returns but run-time panics, which
  end the goroutine: an out-of-range index or slice bound, and the close of a closed
  channel. Every caller passes a panic on unchanged.

  Modelled from the spec: \<open>ErrCorrupted\<close> is named by \<^verbatim>\<open>Db.Get\<close>, by the tests and by
  cmd/db, but its declaration is not among the sources; it is taken as a sentinel error
  of its own (section 7 of the specification, CorruptedRecord), different from every
  other error value.
\<close>

datatype err =
    EOF
  | ErrHashMismatch bytes
  | ErrCannotReadSize err
  | ErrCannotReadRecord err
  | ErrCorruptedSegment err
  | ErrNotFound
  | ErrCorrupted
  | ErrNotExist
  | ErrClosed
  | ErrInvalid
  | ErrBufferFull
  | PanicOutOfRange
  | PanicCloseOfClosedChannel

fun is_panic :: "err \<Rightarrow> bool" where
  "is_panic PanicOutOfRange = True"
| "is_panic PanicCloseOfClosedChannel = True"
| "is_panic _ = False"

text \<open>\<^verbatim>\<open>errors.Is(e, target)\<close>: \<open>e\<close> or an error it wraps is the target.\<close>

fun errors_Is :: "err \<Rightarrow> err \<Rightarrow> bool" where
  "errors_Is (ErrCannotReadSize e) t = (t = ErrCannotReadSize e \<or> errors_Is e t)"
| "errors_Is (ErrCannotReadRecord e) t = (t = ErrCannotReadRecord e \<or> errors_Is e t)"
| "errors_Is (ErrCorruptedSegment e) t = (t = ErrCorruptedSegment e \<or> errors_Is e t)"
| "errors_Is e t = (t = e)"

subsection \<open>encoding/binary, little endian\<close>

text \<open>
  \<^verbatim>\<open>binary.LittleEndian.Uint32(b)\<close> reads \<^verbatim>\<open>b[0] | b[1]<<8 | b[2]<<16 | b[3]<<24\<close> and
  panics when \<open>b\<close> has fewer than four bytes.
\<close>

definition Uint32 :: "bytes \<Rightarrow> err + u32" where
  "Uint32 b =
     (if length b < 4 then Inl PanicOutOfRange
      else Inr (ucast (b ! 0) OR push_bit 8 (ucast (b ! 1))
                OR push_bit 16 (ucast (b ! 2)) OR push_bit 24 (ucast (b ! 3))))"

text \<open>The four bytes \<^verbatim>\<open>PutUint32\<close> stores: \<^verbatim>\<open>byte(v), byte(v>>8), byte(v>>16), byte(v>>24)\<close>.\<close>

definition le32 :: "u32 \<Rightarrow> bytes" where
  "le32 v = [ucast v, ucast (drop_bit 8 v), ucast (drop_bit 16 v), ucast (drop_bit 24 v)]"

text \<open>
  \<^verbatim>\<open>copy(res[off:], src)\<close> overwrites \<open>res\<close> from \<open>off\<close> with as much of \<open>src\<close> as
  fits; the length of \<open>res\<close> stays. (\<^verbatim>\<open>res[off:]\<close> needs \<open>off \<le> length res\<close>, and
  \<^verbatim>\<open>PutUint32(res[off:], v)\<close> needs four bytes from \<open>off\<close>; in \<^verbatim>\<open>Encode\<close> the six
  fields follow one another and fill the \<open>size\<close> bytes allocated exactly, so both
  hold there.)
\<close>

definition copy_at :: "bytes \<Rightarrow> nat \<Rightarrow> bytes \<Rightarrow> bytes" where
  "copy_at res off src =
     take off res @ take (length res - off) src @ drop (off + length src) res"

definition PutUint32 :: "bytes \<Rightarrow> nat \<Rightarrow> u32 \<Rightarrow> bytes" where
  "PutUint32 res off v = copy_at res off (le32 v)"

subsection \<open>crypto/sha1\<close>

text \<open>
  \<^verbatim>\<open>sha1.Sum\<close> is SHA-1 of FIPS 180: the message is padded with the byte 0x80, zero
  bytes up to 56 modulo 64 and the bit length as a 64-bit big-endian number; each block
  of 16 big-endian words is expanded to 80 words and run through 80 rounds.
\<close>

definition be32 :: "bytes \<Rightarrow> u32" where
  "be32 b = push_bit 24 (ucast (b ! 0)) OR push_bit 16 (ucast (b ! 1))
            OR push_bit 8 (ucast (b ! 2)) OR ucast (b ! 3)"

definition be32_bytes :: "u32 \<Rightarrow> bytes" where
  "be32_bytes w = [ucast (drop_bit 24 w), ucast (drop_bit 16 w), ucast (drop_bit 8 w), ucast w]"

definition be64_bytes :: "64 word \<Rightarrow> bytes" where
  "be64_bytes w =
     [ucast (drop_bit 56 w), ucast (drop_bit 48 w), ucast (drop_bit 40 w), ucast (drop_bit 32 w),
      ucast (drop_bit 24 w), ucast (drop_bit 16 w), ucast (drop_bit 8 w), ucast w]"

definition sha1_pad :: "bytes \<Rightarrow> bytes" where
  "sha1_pad m = m @ [0x80] @ replicate ((119 - length m mod 64) mod 64) 0
                  @ be64_bytes (word_of_nat (8 * length m))"

fun sha1_words :: "bytes \<Rightarrow> u32 list" where
  "sha1_words (a # b # c # d # rest) = be32 [a, b, c, d] # sha1_words rest"
| "sha1_words _ = []"

text \<open>The message schedule, newest word first.\<close>

fun sha1_expand :: "nat \<Rightarrow> u32 list \<Rightarrow> u32 list" where
  "sha1_expand 0 r = r"
| "sha1_expand (Suc n) r =
     sha1_expand n (word_rotl 1 (r ! 2 XOR r ! 7 XOR r ! 13 XOR r ! 15) # r)"

type_synonym sha1_state = "u32 \<times> u32 \<times> u32 \<times> u32 \<times> u32"

definition sha1_f :: "nat \<Rightarrow> u32 \<Rightarrow> u32 \<Rightarrow> u32 \<Rightarrow> u32" where
  "sha1_f t b c d =
     (if t < 20 then (b AND c) OR (NOT b AND d)
      else if t < 40 then b XOR c XOR d
      else if t < 60 then (b AND c) OR (b AND d) OR (c AND d)
      else b XOR c XOR d)"

definition sha1_k :: "nat \<Rightarrow> u32" where
  "sha1_k t = (if t < 20 then 0x5A827999 else if t < 40 then 0x6ED9EBA1
               else if t < 60 then 0x8F1BBCDC else 0xCA62C1D6)"

fun sha1_rounds :: "nat \<Rightarrow> u32 list \<Rightarrow> sha1_state \<Rightarrow> sha1_state" where
  "sha1_rounds t [] s = s"
| "sha1_rounds t (w # ws) (a, b, c, d, e) =
     sha1_rounds (Suc t) ws
       (word_rotl 5 a + sha1_f t b c d + e + sha1_k t + w, a, word_rotl 30 b, c, d)"

definition sha1_block :: "sha1_state \<Rightarrow> u32 list \<Rightarrow> sha1_state" where
  "sha1_block h ws =
     (case h of (h0, h1, h2, h3, h4) \<Rightarrow>
        (case sha1_rounds 0 (rev (sha1_expand 64 (rev ws))) h of
           (a, b, c, d, e) \<Rightarrow> (h0 + a, h1 + b, h2 + c, h3 + d, h4 + e)))"

function sha1_blocks :: "sha1_state \<Rightarrow> u32 list \<Rightarrow> sha1_state" where
  "sha1_blocks h ws =
     (if length ws < 16 then h else sha1_blocks (sha1_block h (take 16 ws)) (drop 16 ws))"
  by pat_completeness auto
termination
  by (relation "measure (\<lambda>(h, ws). length ws)") auto

declare sha1_blocks.simps [simp del]

definition sha1_init :: sha1_state where
  "sha1_init = (0x67452301, 0xEFCDAB89, 0x98BADCFE, 0x10325476, 0xC3D2E1F0)"

definition sha1_Sum :: "bytes \<Rightarrow> bytes" where
  "sha1_Sum m =
     (case sha1_blocks sha1_init (sha1_words (sha1_pad m)) of
        (h0, h1, h2, h3, h4) \<Rightarrow>
          be32_bytes h0 @ be32_bytes h1 @ be32_bytes h2 @ be32_bytes h3 @ be32_bytes h4)"

section \<open>datastore/entry.go: the entry codec\<close>

record entry =
  e_key :: bytes
  e_value :: bytes

text \<open>
  \<^verbatim>\<open>Encode\<close> allocates \<open>size\<close> zero bytes and fills them field by field, as the source
  does. \<^verbatim>\<open>len(hash)\<close> is the length of a \<^verbatim>\<open>[20]byte\<close> array.
\<close>

definition Encode :: "entry \<Rightarrow> bytes" where
  "Encode e =
     (let kl = length (e_key e); vl = length (e_value e);
          hash = sha1_Sum (e_value e);
          size = kl + vl + 12 + length hash;
          res = replicate size 0;
          res = PutUint32 res 0 (word_of_nat size);
          res = PutUint32 res 4 (word_of_nat kl);
          res = copy_at res 8 (e_key e);
          res = PutUint32 res (kl + 8) (word_of_nat vl);
          res = copy_at res (kl + 12) (e_value e);
          res = copy_at res (kl + 12 + vl) hash
      in res)"

text \<open>
  \<^verbatim>\<open>equalHash\<close>: the length test, then the loop over the indices of \<open>a\<close>. The third
  equation of the loop is the index \<^verbatim>\<open>b[i]\<close> out of range, which the length test
  excludes.
\<close>

fun equalHash_loop :: "bytes \<Rightarrow> bytes \<Rightarrow> bool" where
  "equalHash_loop [] b = True"
| "equalHash_loop (x # a) (y # b) = (if x \<noteq> y then False else equalHash_loop a b)"
| "equalHash_loop (x # a) [] = False"

definition equalHash :: "bytes \<Rightarrow> bytes \<Rightarrow> bool" where
  "equalHash a b = (if length a \<noteq> length b then False else equalHash_loop a b)"

text \<open>
  \<^verbatim>\<open>Decode\<close>. A slice expression \<^verbatim>\<open>input[lo:hi]\<close> panics unless
  \<open>lo \<le> hi \<le> cap input\<close>, and \<^verbatim>\<open>input[lo:]\<close> unless \<open>lo \<le> length input\<close>; the
  buffers that reach \<^verbatim>\<open>Decode\<close> come from \<^verbatim>\<open>make([]byte, size)\<close>, whose capacity is its
  length. The source has no check of its own, so each slice and each \<^verbatim>\<open>Uint32\<close> is a
  branch that panics. On a hash mismatch the receiver already holds the key and the
  value read; no caller looks at them after an error, and the error carries the key.
\<close>

definition slice_from :: "bytes \<Rightarrow> nat \<Rightarrow> err + bytes" where
  "slice_from input lo = (if lo \<le> length input then Inr (drop lo input) else Inl PanicOutOfRange)"

definition slice :: "bytes \<Rightarrow> nat \<Rightarrow> nat \<Rightarrow> err + bytes" where
  "slice input lo hi =
     (if lo \<le> hi \<and> hi \<le> length input then Inr (take (hi - lo) (drop lo input))
      else Inl PanicOutOfRange)"

definition Decode :: "bytes \<Rightarrow> err + entry" where
  "Decode input =
     (case slice_from input 4 of Inl p \<Rightarrow> Inl p | Inr s4 \<Rightarrow>
      case Uint32 s4 of Inl p \<Rightarrow> Inl p | Inr klw \<Rightarrow>
      let kl = unat klw in
      case slice input 8 (8 + kl) of Inl p \<Rightarrow> Inl p | Inr k \<Rightarrow>
      case slice_from input (8 + kl) of Inl p \<Rightarrow> Inl p | Inr s8 \<Rightarrow>
      case Uint32 s8 of Inl p \<Rightarrow> Inl p | Inr vlw \<Rightarrow>
      let vl = unat vlw; valueStart = 12 + kl in
      case slice input valueStart (valueStart + vl) of Inl p \<Rightarrow> Inl p | Inr v \<Rightarrow>
      case slice_from input (valueStart + vl) of Inl p \<Rightarrow> Inl p | Inr expectedHash \<Rightarrow>
      let actualHash = sha1_Sum v in
      if \<not> equalHash expectedHash actualHash then Inl (ErrHashMismatch k)
      else Inr \<lparr>e_key = k, e_value = v\<rparr>)"

subsection \<open>bufio.Reader over a file\<close>

text \<open>
  The state of a \<^verbatim>\<open>bufio.Reader\<close>: the bytes buffered and not yet read
  (\<^verbatim>\<open>b.buf[b.r:b.w]\<close>), what is left of the underlying file, and the pending error
  \<^verbatim>\<open>b.err\<close>. \<^verbatim>\<open>bufio.NewReader\<close> gives the buffer \<^verbatim>\<open>defaultBufSize = 4096\<close> bytes. The
  underlying reader is a regular file (or a \<^verbatim>\<open>bytes.Reader\<close>): a read of \<open>k > 0\<close> bytes
  returns the next \<open>min k (bytes left)\<close> bytes, and \<open>(0, io.EOF)\<close> when none is left.
\<close>

record Reader =
  rbuf :: bytes
  rsrc :: bytes
  rerr :: "err option"

definition bufSize :: nat where
  "bufSize = 4096"

definition NewReader :: "bytes \<Rightarrow> Reader" where
  "NewReader src = \<lparr>rbuf = [], rsrc = src, rerr = None\<rparr>"

text \<open>\<^verbatim>\<open>fill\<close>: slide the buffered bytes to the front, then one read into the free rest.\<close>

definition fill :: "Reader \<Rightarrow> Reader" where
  "fill b =
     (if rsrc b = [] then b\<lparr>rerr := Some EOF\<rparr>
      else let n = min (bufSize - length (rbuf b)) (length (rsrc b))
           in b\<lparr>rbuf := rbuf b @ take n (rsrc b), rsrc := drop n (rsrc b)\<rparr>)"

text \<open>
  \<^verbatim>\<open>Peek(n)\<close>:
  \<^verbatim>\<open>for b.w-b.r < n && b.w-b.r < len(b.buf) && b.err == nil { b.fill() }\<close>, then the
  first \<open>n\<close> buffered bytes, or all of them with the pending error when they are fewer.
\<close>

function Peek_loop :: "nat \<Rightarrow> Reader \<Rightarrow> Reader" where
  "Peek_loop n b =
     (if length (rbuf b) < n \<and> length (rbuf b) < bufSize \<and> rerr b = None
      then Peek_loop n (fill b) else b)"
  by pat_completeness auto
termination
  by (relation "measure (\<lambda>(n, b). (if rerr b = None then 1 else 0) + (n - length (rbuf b)))")
     (auto simp: fill_def bufSize_def Let_def min_def neq_Nil_conv)

declare Peek_loop.simps [simp del]

definition Peek :: "nat \<Rightarrow> Reader \<Rightarrow> bytes \<times> err option \<times> Reader" where
  "Peek n b =
     (let b1 = Peek_loop n b in
      if bufSize < n then (rbuf b1, Some ErrBufferFull, b1)
      else if length (rbuf b1) < n
      then (rbuf b1, Some (case rerr b1 of Some e \<Rightarrow> e | None \<Rightarrow> ErrBufferFull),
            b1\<lparr>rerr := None\<rparr>)
      else (take n (rbuf b1), None, b1))"

text \<open>
  \<^verbatim>\<open>Read(p)\<close> with \<open>p\<close> a fresh buffer of \<open>n\<close> zero bytes: the contents of \<open>p\<close>
  afterwards, the count, the error and the reader. It takes its bytes from at most one
  read of the file, and from the buffer alone when the buffer is not empty, so the count
  may be less than \<open>n\<close>.
\<close>

definition Read :: "nat \<Rightarrow> Reader \<Rightarrow> bytes \<times> nat \<times> err option \<times> Reader" where
  "Read n b =
     (if n = 0 then
        (if rbuf b \<noteq> [] then ([], 0, None, b) else ([], 0, rerr b, b\<lparr>rerr := None\<rparr>))
      else if rbuf b = [] then
        (if rerr b \<noteq> None then (replicate n 0, 0, rerr b, b\<lparr>rerr := None\<rparr>)
         else if rsrc b = [] then (replicate n 0, 0, Some EOF, b)
         else if bufSize \<le> n then
           (let k = min n (length (rsrc b))
            in (take k (rsrc b) @ replicate (n - k) 0, k, None, b\<lparr>rsrc := drop k (rsrc b)\<rparr>))
         else
           (let m = min bufSize (length (rsrc b)); k = min n m
            in (take k (rsrc b) @ replicate (n - k) 0, k, None,
                b\<lparr>rbuf := drop k (take m (rsrc b)), rsrc := drop m (rsrc b)\<rparr>)))
      else
        (let k = min n (length (rbuf b))
         in (take k (rbuf b) @ replicate (n - k) 0, k, None, b\<lparr>rbuf := drop k (rbuf b)\<rparr>)))"

text \<open>
  \<^verbatim>\<open>DecodeFromReader\<close>: the reader afterwards, the count \<open>n\<close> and the error or the
  entry. Only the error of \<^verbatim>\<open>Read\<close> is tested, not its count.
\<close>

definition DecodeFromReader :: "Reader \<Rightarrow> Reader \<times> nat \<times> (err + entry)" where
  "DecodeFromReader b =
     (case Peek 4 b of
        (sizeBuf, Some e, b1) \<Rightarrow>
          if errors_Is e EOF then (b1, 0, Inl e) else (b1, 0, Inl (ErrCannotReadSize e))
      | (sizeBuf, None, b1) \<Rightarrow>
          (case Uint32 sizeBuf of Inl p \<Rightarrow> (b1, 0, Inl p) | Inr sz \<Rightarrow>
           case Read (unat sz) b1 of
             (buf, n, Some e, b2) \<Rightarrow> (b2, n, Inl (ErrCannotReadRecord e))
           | (buf, n, None, b2) \<Rightarrow> (b2, n, Decode buf)))"

text \<open>
  What a reader still has to deliver. \<^verbatim>\<open>Peek\<close> moves bytes from the file into the
  buffer and loses none; a call of \<^verbatim>\<open>DecodeFromReader\<close> that returns an entry has
  taken at least one byte, which is why the replay loop of \<^verbatim>\<open>recoverSegment\<close> ends.
\<close>

definition remaining :: "Reader \<Rightarrow> nat" where
  "remaining b = length (rbuf b) + length (rsrc b)"

lemma Peek_loop_stream:
  "rbuf (Peek_loop n b) @ rsrc (Peek_loop n b) = rbuf b @ rsrc b"
proof (induction n b rule: Peek_loop.induct)
  case (1 n b)
  show ?case
  proof (cases "length (rbuf b) < n \<and> length (rbuf b) < bufSize \<and> rerr b = None")
    case True
    then have "Peek_loop n b = Peek_loop n (fill b)"
      by (subst Peek_loop.simps) simp
    moreover have "rbuf (fill b) @ rsrc (fill b) = rbuf b @ rsrc b"
      by (simp add: fill_def Let_def)
    ultimately show ?thesis
      using 1 True by simp
  next
    case False
    then have "Peek_loop n b = b"
      by (subst Peek_loop.simps) auto
    then show ?thesis
      by simp
  qed
qed

lemma remaining_Peek_loop: "remaining (Peek_loop n b) = remaining b"
proof -
  have "length (rbuf (Peek_loop n b) @ rsrc (Peek_loop n b)) = length (rbuf b @ rsrc b)"
    by (simp only: Peek_loop_stream)
  then show ?thesis
    by (simp add: remaining_def)
qed

lemma Decode_short_panics: "length input < 8 \<Longrightarrow> Decode input = Inl PanicOutOfRange"
  by (auto simp add: Decode_def slice_from_def Uint32_def split: sum.splits)

lemma DecodeFromReader_progress:
  assumes "DecodeFromReader b = (b', n, Inr e)"
  shows "remaining b' < remaining b"
proof -
  define b1 where "b1 = Peek_loop 4 b"
  have r1: "remaining b1 = remaining b"
    by (simp add: b1_def remaining_Peek_loop)
  show ?thesis
  proof (cases "length (rbuf b1) < 4")
    case True
    then show ?thesis
      using assms by (simp add: DecodeFromReader_def Peek_def b1_def [symmetric] bufSize_def split: if_splits)
  next
    case False
    then obtain sz where sz: "Uint32 (take 4 (rbuf b1)) = Inr sz"
      by (auto simp: Uint32_def)
    have ne: "rbuf b1 \<noteq> []"
      using False by auto
    show ?thesis
    proof (cases "unat sz = 0")
      case True
      then show ?thesis
        using assms False sz ne
        by (simp add: DecodeFromReader_def Peek_def b1_def [symmetric] bufSize_def Read_def
            Decode_short_panics)
    next
      case nz: False
      then have "b' = b1\<lparr>rbuf := drop (min (unat sz) (length (rbuf b1))) (rbuf b1)\<rparr>"
        using assms False sz ne
        by (auto simp add: DecodeFromReader_def Peek_def b1_def [symmetric] bufSize_def Read_def
            Let_def)
      then have "remaining b' < remaining b1"
        using nz False by (auto simp add: remaining_def min_def)
      then show ?thesis
        using r1 by simp
    qed
  qed
qed

section \<open>The directory, file handles and the names of segments\<close>

text \<open>
  The storage directory is a list of files, name and contents; it holds regular files
  only. File operations fail for the reasons modelled and for no other: a missing file,
  a closed or nil handle. \<^verbatim>\<open>os.ReadDir\<close> returns the entries sorted by file name, which
  for Go strings is the order of their bytes.
\<close>

type_synonym dirfs = "(string \<times> bytes) list"

record File =
  fname :: string
  fclosed :: bool

definition ReadDir :: "dirfs \<Rightarrow> string list" where
  "ReadDir fs = sort (remdups (map fst fs))"

text \<open>\<^verbatim>\<open>os.OpenFile(path, O_CREATE|O_WRONLY|O_APPEND, 0o600)\<close>: an existing file is kept.\<close>

definition OpenFile_create :: "dirfs \<Rightarrow> string \<Rightarrow> dirfs \<times> File" where
  "OpenFile_create fs name =
     ((case map_of fs name of None \<Rightarrow> fs @ [(name, [])] | Some c \<Rightarrow> fs),
      \<lparr>fname = name, fclosed = False\<rparr>)"

text \<open>\<^verbatim>\<open>os.OpenFile(path, O_APPEND|O_WRONLY, 0o600)\<close>.\<close>

definition OpenFile_append :: "dirfs \<Rightarrow> string \<Rightarrow> err + File" where
  "OpenFile_append fs name =
     (case map_of fs name of None \<Rightarrow> Inl ErrNotExist
      | Some c \<Rightarrow> Inr \<lparr>fname = name, fclosed = False\<rparr>)"

text \<open>\<^verbatim>\<open>(*os.File).Write\<close> on a handle opened with O_APPEND: the data goes to the end.\<close>

definition File_Write :: "dirfs \<Rightarrow> File option \<Rightarrow> bytes \<Rightarrow> dirfs \<times> nat \<times> err option" where
  "File_Write fs f data =
     (case f of
        None \<Rightarrow> (fs, 0, Some ErrInvalid)
      | Some h \<Rightarrow>
          if fclosed h then (fs, 0, Some ErrClosed)
          else (AList.update (fname h)
                  ((case map_of fs (fname h) of None \<Rightarrow> [] | Some c \<Rightarrow> c) @ data) fs,
                length data, None))"

definition File_Close :: "File option \<Rightarrow> File option \<times> err option" where
  "File_Close f =
     (case f of
        None \<Rightarrow> (None, Some ErrInvalid)
      | Some h \<Rightarrow>
          if fclosed h then (Some h, Some ErrClosed)
          else (Some (h\<lparr>fclosed := True\<rparr>), None))"

text \<open>\<^verbatim>\<open>fmt.Sprintf("%s%d", outFileNamePrefix, id)\<close>.\<close>

definition outFileNamePrefix :: string where
  "outFileNamePrefix = ''segment-''"

function show_nat :: "nat \<Rightarrow> string" where
  "show_nat n =
     (if n < 10 then [''0123456789'' ! n]
      else show_nat (n div 10) @ [''0123456789'' ! (n mod 10)])"
  by pat_completeness auto
termination
  by (relation "measure (\<lambda>n. n)") auto

declare show_nat.simps [simp del]

definition show_int :: "int \<Rightarrow> string" where
  "show_int i = (if i < 0 then ''-'' @ show_nat (nat (- i)) else show_nat (nat i))"

definition segmentFilename :: "int \<Rightarrow> string" where
  "segmentFilename sid = outFileNamePrefix @ show_int sid"

text \<open>
  \<^verbatim>\<open>strconv.Atoi\<close>: an optional sign, then one or more decimal digits and nothing else;
  an error (here \<open>None\<close>) also when the number does not fit the 64-bit \<^verbatim>\<open>int\<close>.
\<close>

definition is_digit :: "char \<Rightarrow> bool" where
  "is_digit c = (c \<in> set ''0123456789'')"

definition digit_val :: "char \<Rightarrow> nat" where
  "digit_val c = of_char c - 48"

fun parse_digits :: "string \<Rightarrow> nat \<Rightarrow> nat option" where
  "parse_digits [] acc = Some acc"
| "parse_digits (c # cs) acc =
     (if is_digit c then parse_digits cs (acc * 10 + digit_val c) else None)"

definition Atoi :: "string \<Rightarrow> int option" where
  "Atoi s =
     (case s of
        [] \<Rightarrow> None
      | c # cs \<Rightarrow>
          let neg = (c = CHR ''-'');
              ds = (if c = CHR ''-'' \<or> c = CHR ''+'' then cs else s)
          in if ds = [] then None
             else (case parse_digits ds 0 of
                     None \<Rightarrow> None
                   | Some n \<Rightarrow>
                       if neg then (if n \<le> 2 ^ 63 then Some (- int n) else None)
                       else (if n < 2 ^ 63 then Some (int n) else None)))"

definition HasPrefix :: "string \<Rightarrow> string \<Rightarrow> bool" where
  "HasPrefix s p = (take (length p) s = p)"

definition TrimPrefix :: "string \<Rightarrow> string \<Rightarrow> string" where
  "TrimPrefix s p = (if HasPrefix s p then drop (length p) s else s)"

section \<open>The engine with the write serializer\<close>

text \<open>
  The engine of package datastore whose \<^verbatim>\<open>Put\<close> hands the request to the writer
  goroutine. \<open>closeCh\<close> tells whether the channel \<^verbatim>\<open>closeCh\<close> has been closed, \<open>wg\<close>
  is the counter of the wait group: 1 while the writer goroutine runs. The directory is
  passed along with the engine; \<^verbatim>\<open>dir\<close> names it and is left out. The read/write lock
  has no effect on a single caller.
\<close>

record segmentRef =
  segmentId :: int
  offset :: int

type_synonym hashIndex = "bytes \<rightharpoonup> segmentRef"

record Db =
  segmentLimit :: int
  currentSegment :: "File option"
  currentSegmentId :: int
  currentOffset :: int
  index :: hashIndex
  closeCh :: bool
  wg :: nat

text \<open>
  The segment id is a Go \<^verbatim>\<open>int\<close> of 64 bits, and \<^verbatim>\<open>db.currentSegmentId++\<close> wraps
  around: after \<open>2 ^ 63 - 1\<close> comes \<open>- 2 ^ 63\<close>. \<open>int64\<close> is the value that a
  64-bit \<^verbatim>\<open>int\<close> holds for the result of an operation.
\<close>

definition int64 :: "int \<Rightarrow> int" where
  "int64 i = (i + 2 ^ 63) mod 2 ^ 64 - 2 ^ 63"

text \<open>
  \<^verbatim>\<open>createNewSegment\<close>: its only error is that of \<^verbatim>\<open>os.OpenFile\<close> with O_CREATE, which
  does not fail in this directory.
\<close>

definition createNewSegment :: "Db \<times> dirfs \<Rightarrow> Db \<times> dirfs" where
  "createNewSegment st =
     (case st of (db, fs) \<Rightarrow>
        let db1 = db\<lparr>currentSegmentId := int64 (currentSegmentId db + 1)\<rparr> in
        (case OpenFile_create fs (segmentFilename (currentSegmentId db1)) of
           (fs1, f) \<Rightarrow> (db1\<lparr>currentSegment := Some f, currentOffset := 0\<rparr>, fs1)))"

text \<open>
  \<^verbatim>\<open>recoverSegment\<close>: the loop over the records of one segment. A panic ends it as a
  panic; any error that is \<^verbatim>\<open>io.EOF\<close> ends the segment; any other error is wrapped and
  returned. On an error the index is the caller's to discard (\<^verbatim>\<open>OpenWithLimit\<close> returns
  no engine), so the model returns the error alone.
\<close>

function recover_loop :: "int \<Rightarrow> Reader \<Rightarrow> int \<Rightarrow> hashIndex \<Rightarrow> err + hashIndex" where
  "recover_loop sid reader off idx =
     (case DecodeFromReader reader of
        (reader1, n, Inl e) \<Rightarrow>
          if is_panic e then Inl e
          else if errors_Is e EOF then Inr idx
          else Inl (ErrCorruptedSegment e)
      | (reader1, n, Inr record) \<Rightarrow>
          recover_loop sid reader1 (off + int n)
            (idx(e_key record \<mapsto> \<lparr>segmentId = sid, offset = off\<rparr>)))"
  by pat_completeness auto
termination
  by (relation "measure (\<lambda>(sid, reader, off, idx). remaining reader)")
     (auto dest: DecodeFromReader_progress [OF sym])

declare recover_loop.simps [simp del]

definition recoverSegment :: "dirfs \<Rightarrow> hashIndex \<Rightarrow> int \<Rightarrow> err + hashIndex" where
  "recoverSegment fs idx sid =
     (case map_of fs (segmentFilename sid) of
        None \<Rightarrow> Inl ErrNotExist
      | Some content \<Rightarrow> recover_loop sid (NewReader content) 0 idx)"

text \<open>
  \<^verbatim>\<open>loadSegments\<close>. The ids are collected in the order of \<^verbatim>\<open>os.ReadDir\<close>, and the
  second loop replays them in that order while it tracks the largest.
\<close>

definition segmentIds_of :: "string list \<Rightarrow> int list" where
  "segmentIds_of files =
     List.map_filter
       (\<lambda>name. if HasPrefix name outFileNamePrefix
                then Atoi (TrimPrefix name outFileNamePrefix) else None)
       files"

fun recover_all :: "dirfs \<Rightarrow> int list \<Rightarrow> int \<Rightarrow> hashIndex \<Rightarrow> err + (int \<times> hashIndex)" where
  "recover_all fs [] maxId idx = Inr (maxId, idx)"
| "recover_all fs (sid # ids) maxId idx =
     (let maxId1 = (if sid > maxId then sid else maxId) in
      case recoverSegment fs idx sid of
        Inl e \<Rightarrow> Inl e
      | Inr idx1 \<Rightarrow> recover_all fs ids maxId1 idx1)"

definition loadSegments :: "Db \<times> dirfs \<Rightarrow> err + (Db \<times> dirfs)" where
  "loadSegments st =
     (case st of (db, fs) \<Rightarrow>
        let segmentIds = segmentIds_of (ReadDir fs) in
        if length segmentIds = 0 then Inr (createNewSegment (db, fs))
        else
          (case recover_all fs segmentIds (- 1) (index db) of
             Inl e \<Rightarrow> Inl e
           | Inr (maxId, idx) \<Rightarrow>
               (case OpenFile_append fs (segmentFilename maxId) of
                  Inl e \<Rightarrow> Inl e
                | Inr f \<Rightarrow>
                    Inr (db\<lparr>index := idx, currentSegmentId := maxId,
                              currentSegment := Some f,
                              currentOffset :=
                                int (length (case map_of fs (fname f) of
                                               None \<Rightarrow> [] | Some c \<Rightarrow> c))\<rparr>,
                         fs))))"

definition OpenWithLimit :: "dirfs \<Rightarrow> int \<Rightarrow> err + (Db \<times> dirfs)" where
  "OpenWithLimit fs limit =
     (let db = \<lparr>segmentLimit = limit, currentSegment = None, currentSegmentId = 0,
                currentOffset = 0, index = Map.empty, closeCh = False, wg = 0\<rparr>
      in case loadSegments (db, fs) of
           Inl e \<Rightarrow> Inl e
         | Inr (db1, fs1) \<Rightarrow> Inr (db1\<lparr>wg := 1\<rparr>, fs1))"

definition defaultMaxSegmentSize :: int where
  "defaultMaxSegmentSize = 10 * 1024 * 1024"

definition Open :: "dirfs \<Rightarrow> err + (Db \<times> dirfs)" where
  "Open fs = OpenWithLimit fs defaultMaxSegmentSize"

text \<open>\<^verbatim>\<open>writeEntry\<close>: the engine and the directory afterwards, and the error returned.\<close>

definition writeEntry :: "Db \<times> dirfs \<Rightarrow> bytes \<Rightarrow> bytes \<Rightarrow> (Db \<times> dirfs) \<times> err option" where
  "writeEntry st key val =
     (case st of (db, fs) \<Rightarrow>
        let data = Encode \<lparr>e_key = key, e_value = val\<rparr> in
        (case (if currentOffset db + int (length data) > segmentLimit db
               then (case File_Close (currentSegment db) of
                       (f1, Some e) \<Rightarrow> ((db\<lparr>currentSegment := f1\<rparr>, fs), Some e)
                     | (f1, None) \<Rightarrow> (createNewSegment (db\<lparr>currentSegment := f1\<rparr>, fs), None))
               else ((db, fs), None)) of
           (st1, Some e) \<Rightarrow> (st1, Some e)
         | ((db1, fs1), None) \<Rightarrow>
             (case File_Write fs1 (currentSegment db1) data of
                (fs2, n, Some e) \<Rightarrow> ((db1, fs2), Some e)
              | (fs2, n, None) \<Rightarrow>
                  ((db1\<lparr>index := (index db1)(key \<mapsto>
                            \<lparr>segmentId = currentSegmentId db1, offset = currentOffset db1\<rparr>),
                        currentOffset := currentOffset db1 + int n\<rparr>, fs2), None))))"

text \<open>
  \<^verbatim>\<open>Put\<close> by one caller at a time: while the writer goroutine runs it takes the request
  from \<^verbatim>\<open>writeCh\<close>, calls \<^verbatim>\<open>writeEntry\<close> and sends its error back. Once the writer has
  left its loop nobody answers and \<^verbatim>\<open>Put\<close> blocks for ever: \<open>None\<close>.
\<close>

definition Put :: "Db \<times> dirfs \<Rightarrow> bytes \<Rightarrow> bytes \<Rightarrow> ((Db \<times> dirfs) \<times> err option) option" where
  "Put st key val =
     (if closeCh (fst st) \<or> wg (fst st) = 0 then None else Some (writeEntry st key val))"

text \<open>
  \<^verbatim>\<open>Get\<close>: the file is opened for the lookup and read from the stored offset. A panic
  of \<^verbatim>\<open>DecodeFromReader\<close> goes through as it is.
\<close>

definition Get :: "Db \<times> dirfs \<Rightarrow> bytes \<Rightarrow> err + bytes" where
  "Get st key =
     (case st of (db, fs) \<Rightarrow>
        (case index db key of
           None \<Rightarrow> Inl ErrNotFound
         | Some ref \<Rightarrow>
             (case map_of fs (segmentFilename (segmentId ref)) of
                None \<Rightarrow> Inl ErrNotExist
              | Some content \<Rightarrow>
                  if offset ref < 0 then Inl ErrInvalid
                  else (case DecodeFromReader (NewReader (drop (nat (offset ref)) content)) of
                          (reader1, n, Inl e) \<Rightarrow>
                            if errors_Is e ErrCorrupted then Inl ErrCorrupted else Inl e
                        | (reader1, n, Inr record) \<Rightarrow> Inr (e_value record)))))"

text \<open>
  \<^verbatim>\<open>Close\<close>: \<^verbatim>\<open>close(db.closeCh)\<close> panics on a channel that is closed already. Otherwise
  the writer sees the closed channel and returns, \<^verbatim>\<open>wg.Wait()\<close> returns once the counter
  is 0, and then the handle of the current segment is closed.
\<close>

definition Close :: "Db \<Rightarrow> Db \<times> err option" where
  "Close db =
     (if closeCh db then (db, Some PanicCloseOfClosedChannel)
      else let db1 = db\<lparr>closeCh := True\<rparr>;
               db2 = db1\<lparr>wg := 0\<rparr>
           in case currentSegment db2 of
                None \<Rightarrow> (db2, None)
              | Some h \<Rightarrow>
                  (case File_Close (Some h) of (f1, r) \<Rightarrow> (db2\<lparr>currentSegment := f1\<rparr>, r)))"

definition Size :: "Db \<Rightarrow> int" where
  "Size db = currentOffset db"

section \<open>The plain sequential engine\<close>

text \<open>
  The second copy of package datastore, found after the server code in
  cmd/server/server.go: no writer goroutine, no channels, no lock. Its functions are
  translated from that text on their own, under the prefix \<open>seq\<close>; the entry codec and
  the library are the same.
\<close>

record seq_Db =
  seq_segmentLimit :: int
  seq_currentSegment :: "File option"
  seq_currentSegmentId :: int
  seq_currentOffset :: int
  seq_index :: hashIndex

definition seq_createNewSegment :: "seq_Db \<times> dirfs \<Rightarrow> seq_Db \<times> dirfs" where
  "seq_createNewSegment st =
     (case st of (db, fs) \<Rightarrow>
        let db1 = db\<lparr>seq_currentSegmentId := int64 (seq_currentSegmentId db + 1)\<rparr>;
            name = segmentFilename (seq_currentSegmentId db1)
        in (case OpenFile_create fs name of
              (fs1, f) \<Rightarrow> (db1\<lparr>seq_currentSegment := Some f, seq_currentOffset := 0\<rparr>, fs1)))"

function seq_recover_loop :: "int \<Rightarrow> Reader \<Rightarrow> int \<Rightarrow> hashIndex \<Rightarrow> err + hashIndex" where
  "seq_recover_loop sid reader off idx =
     (case DecodeFromReader reader of
        (reader1, n, Inl e) \<Rightarrow>
          if is_panic e then Inl e
          else if errors_Is e EOF then Inr idx
          else Inl (ErrCorruptedSegment e)
      | (reader1, n, Inr record) \<Rightarrow>
          seq_recover_loop sid reader1 (off + int n)
            (idx(e_key record \<mapsto> \<lparr>segmentId = sid, offset = off\<rparr>)))"
  by pat_completeness auto
termination
  by (relation "measure (\<lambda>(sid, reader, off, idx). remaining reader)")
     (auto dest: DecodeFromReader_progress [OF sym])

declare seq_recover_loop.simps [simp del]

definition seq_recoverSegment :: "dirfs \<Rightarrow> hashIndex \<Rightarrow> int \<Rightarrow> err + hashIndex" where
  "seq_recoverSegment fs idx sid =
     (case map_of fs (segmentFilename sid) of
        None \<Rightarrow> Inl ErrNotExist
      | Some content \<Rightarrow> seq_recover_loop sid (NewReader content) 0 idx)"

fun seq_recover_all :: "dirfs \<Rightarrow> int list \<Rightarrow> int \<Rightarrow> hashIndex \<Rightarrow> err + (int \<times> hashIndex)" where
  "seq_recover_all fs [] maxId idx = Inr (maxId, idx)"
| "seq_recover_all fs (sid # ids) maxId idx =
     (let maxId1 = (if sid > maxId then sid else maxId) in
      case seq_recoverSegment fs idx sid of
        Inl e \<Rightarrow> Inl e
      | Inr idx1 \<Rightarrow> seq_recover_all fs ids maxId1 idx1)"

definition seq_loadSegments :: "seq_Db \<times> dirfs \<Rightarrow> err + (seq_Db \<times> dirfs)" where
  "seq_loadSegments st =
     (case st of (db, fs) \<Rightarrow>
        let segmentIds = segmentIds_of (ReadDir fs) in
        if length segmentIds = 0 then Inr (seq_createNewSegment (db, fs))
        else
          (case seq_recover_all fs segmentIds (- 1) (seq_index db) of
             Inl e \<Rightarrow> Inl e
           | Inr (maxId, idx) \<Rightarrow>
               (case OpenFile_append fs (segmentFilename maxId) of
                  Inl e \<Rightarrow> Inl e
                | Inr segFile \<Rightarrow>
                    Inr (db\<lparr>seq_index := idx, seq_currentSegmentId := maxId,
                              seq_currentSegment := Some segFile,
                              seq_currentOffset :=
                                int (length (case map_of fs (fname segFile) of
                                               None \<Rightarrow> [] | Some c \<Rightarrow> c))\<rparr>,
                         fs))))"

definition seq_OpenWithLimit :: "dirfs \<Rightarrow> int \<Rightarrow> err + (seq_Db \<times> dirfs)" where
  "seq_OpenWithLimit fs limit =
     (let db = \<lparr>seq_segmentLimit = limit, seq_currentSegment = None, seq_currentSegmentId = 0,
                seq_currentOffset = 0, seq_index = Map.empty\<rparr>
      in seq_loadSegments (db, fs))"

definition seq_Close :: "seq_Db \<Rightarrow> seq_Db \<times> err option" where
  "seq_Close db =
     (case seq_currentSegment db of
        None \<Rightarrow> (db, None)
      | Some h \<Rightarrow>
          (case File_Close (Some h) of (f1, r) \<Rightarrow> (db\<lparr>seq_currentSegment := f1\<rparr>, r)))"

definition seq_Get :: "seq_Db \<times> dirfs \<Rightarrow> bytes \<Rightarrow> err + bytes" where
  "seq_Get st key =
     (case st of (db, fs) \<Rightarrow>
        (case seq_index db key of
           None \<Rightarrow> Inl ErrNotFound
         | Some ref \<Rightarrow>
             (case map_of fs (segmentFilename (segmentId ref)) of
                None \<Rightarrow> Inl ErrNotExist
              | Some content \<Rightarrow>
                  if offset ref < 0 then Inl ErrInvalid
                  else (case DecodeFromReader (NewReader (drop (nat (offset ref)) content)) of
                          (reader1, n, Inl e) \<Rightarrow> Inl e
                        | (reader1, n, Inr record) \<Rightarrow> Inr (e_value record)))))"

definition seq_Put :: "seq_Db \<times> dirfs \<Rightarrow> bytes \<Rightarrow> bytes \<Rightarrow> (seq_Db \<times> dirfs) \<times> err option" where
  "seq_Put st key val =
     (case st of (db, fs) \<Rightarrow>
        let data = Encode \<lparr>e_key = key, e_value = val\<rparr> in
        (case (if seq_currentOffset db + int (length data) > seq_segmentLimit db
               then (case File_Close (seq_currentSegment db) of
                       (f1, Some e) \<Rightarrow> ((db\<lparr>seq_currentSegment := f1\<rparr>, fs), Some e)
                     | (f1, None) \<Rightarrow>
                         (seq_createNewSegment (db\<lparr>seq_currentSegment := f1\<rparr>, fs), None))
               else ((db, fs), None)) of
           (st1, Some e) \<Rightarrow> (st1, Some e)
         | ((db1, fs1), None) \<Rightarrow>
             (case File_Write fs1 (seq_currentSegment db1) data of
                (fs2, n, Some e) \<Rightarrow> ((db1, fs2), Some e)
              | (fs2, n, None) \<Rightarrow>
                  ((db1\<lparr>seq_index := (seq_index db1)(key \<mapsto>
                            \<lparr>segmentId = seq_currentSegmentId db1,
                             offset = seq_currentOffset db1\<rparr>),
                        seq_currentOffset := seq_currentOffset db1 + int n\<rparr>, fs2), None))))"

section \<open>Notions used in the statements\<close>

text \<open>
  The number that a sequence of bytes holds in little-endian order; the length field
  that \<^verbatim>\<open>Decode\<close> reads at an offset of its input (0 where fewer than four bytes are
  left); and the condition that the length fields of a buffer reach past its end.
\<close>

definition le_nat :: "bytes \<Rightarrow> nat" where
  "le_nat bs = foldr (\<lambda>b n. unat b + 256 * n) bs 0"

definition length_field :: "bytes \<Rightarrow> nat \<Rightarrow> nat" where
  "length_field input off = (case Uint32 (drop off input) of Inl p \<Rightarrow> 0 | Inr w \<Rightarrow> unat w)"

definition reads_past_end :: "bytes \<Rightarrow> bool" where
  "reads_past_end input =
     (length input < 8 \<or> length input < 12 + length_field input 4
      \<or> length input < 12 + length_field input 4
                          + length_field input (8 + length_field input 4))"


text \<open>
  Sequential use of an engine: a list of calls made one at a time, and what they return.
  For the engine with the writer goroutine a run is \<open>None\<close> when a \<^verbatim>\<open>Put\<close> never
  returns. The view of an engine is what both engines have in common: the limit, the
  handle, id and offset of the current segment, and the index.
\<close>

datatype op = OpPut bytes bytes | OpGet bytes

datatype obs = PutResult "err option" | GetResult "err + bytes"

type_synonym view = "int \<times> File option \<times> int \<times> int \<times> hashIndex"

definition view_of :: "Db \<Rightarrow> view" where
  "view_of db =
     (segmentLimit db, currentSegment db, currentSegmentId db, currentOffset db, index db)"

definition seq_view_of :: "seq_Db \<Rightarrow> view" where
  "seq_view_of db =
     (seq_segmentLimit db, seq_currentSegment db, seq_currentSegmentId db,
      seq_currentOffset db, seq_index db)"

fun run_ops :: "Db \<times> dirfs \<Rightarrow> op list \<Rightarrow> (obs list \<times> Db \<times> dirfs) option" where
  "run_ops st [] = Some ([], st)"
| "run_ops st (OpPut k v # ops) =
     (case Put st k v of
        None \<Rightarrow> None
      | Some (st1, r) \<Rightarrow>
          (case run_ops st1 ops of
             None \<Rightarrow> None
           | Some (os, st2) \<Rightarrow> Some (PutResult r # os, st2)))"
| "run_ops st (OpGet k # ops) =
     (case run_ops st ops of
        None \<Rightarrow> None
      | Some (os, st2) \<Rightarrow> Some (GetResult (Get st k) # os, st2))"

fun seq_run_ops :: "seq_Db \<times> dirfs \<Rightarrow> op list \<Rightarrow> obs list \<times> seq_Db \<times> dirfs" where
  "seq_run_ops st [] = ([], st)"
| "seq_run_ops st (OpPut k v # ops) =
     (case seq_Put st k v of
        (st1, r) \<Rightarrow>
          (case seq_run_ops st1 ops of (os, st2) \<Rightarrow> (PutResult r # os, st2)))"
| "seq_run_ops st (OpGet k # ops) =
     (case seq_run_ops st ops of (os, st2) \<Rightarrow> (GetResult (seq_Get st k) # os, st2))"

text \<open>
  What a caller sees of a session: the engine is opened on a directory with a limit, the
  calls are made, and the results, the view of the engine and the directory are looked
  at; or the error of the open.
\<close>

definition session :: "dirfs \<Rightarrow> int \<Rightarrow> op list \<Rightarrow> err + (obs list \<times> view \<times> dirfs) option" where
  "session fs limit ops =
     (case OpenWithLimit fs limit of
        Inl e \<Rightarrow> Inl e
      | Inr st \<Rightarrow>
          Inr (case run_ops st ops of
                 None \<Rightarrow> None
               | Some (os, db, fs1) \<Rightarrow> Some (os, view_of db, fs1)))"

definition seq_session :: "dirfs \<Rightarrow> int \<Rightarrow> op list \<Rightarrow> err + (obs list \<times> view \<times> dirfs) option" where
  "seq_session fs limit ops =
     (case seq_OpenWithLimit fs limit of
        Inl e \<Rightarrow> Inl e
      | Inr st \<Rightarrow>
          Inr (case seq_run_ops st ops of (os, db, fs1) \<Rightarrow> Some (os, seq_view_of db, fs1)))"

text \<open>
  Closing an engine and opening the same directory again with the same limit; the
  error of the close, if any, ends the attempt.
\<close>

definition reopen :: "Db \<times> dirfs \<Rightarrow> err + (Db \<times> dirfs)" where
  "reopen st =
     (case st of (db, fs) \<Rightarrow>
        (case Close db of
           (db1, Some e) \<Rightarrow> Inl e
         | (db1, None) \<Rightarrow> OpenWithLimit fs (segmentLimit db1)))"

text \<open>
  An engine with the write serializer and a sequential engine correspond when their
  views and directories are the same and the writer goroutine of the first is running.
\<close>

definition corresponds :: "Db \<times> dirfs \<Rightarrow> seq_Db \<times> dirfs \<Rightarrow> bool" where
  "corresponds st sst =
     (view_of (fst st) = seq_view_of (fst sst) \<and> snd st = snd sst
      \<and> \<not> closeCh (fst st) \<and> wg (fst st) \<noteq> 0)"

text \<open>
  The number that a string of decimal digits denotes, to read a segment id back from a
  file name.
\<close>

definition read_nat :: "string \<Rightarrow> nat" where
  "read_nat s = foldl (\<lambda>acc c. acc * 10 + digit_val c) 0 s"

text \<open>
  An engine in working order: the writer goroutine runs, the handle of the current
  segment is open on the file named by the current id, the write offset is the length of
  that file, and no segment with a larger id exists. \<^verbatim>\<open>OpenWithLimit\<close> on an empty
  directory gives such an engine, and every \<^verbatim>\<open>Put\<close> keeps it so.
\<close>

definition engine_ok :: "Db \<times> dirfs \<Rightarrow> bool" where
  "engine_ok st =
     (\<not> closeCh (fst st) \<and> wg (fst st) \<noteq> 0
      \<and> currentSegment (fst st)
          = Some \<lparr>fname = segmentFilename (currentSegmentId (fst st)), fclosed = False\<rparr>
      \<and> (\<exists>c. map_of (snd st) (segmentFilename (currentSegmentId (fst st))) = Some c
               \<and> currentOffset (fst st) = int (length c))
      \<and> (\<forall>j. currentSegmentId (fst st) < j \<longrightarrow> map_of (snd st) (segmentFilename j) = None))"

section \<open>The entry codec\<close>

subsection \<open>Facts about the library functions\<close>

lemma length_be32_bytes: "length (be32_bytes w) = 4"
  by (simp add: be32_bytes_def)

lemma length_sha1_Sum: "length (sha1_Sum m) = 20"
  by (simp add: sha1_Sum_def length_be32_bytes split: prod.splits)

lemma length_le32: "length (le32 v) = 4"
  by (simp add: le32_def)

lemma le_roundtrip:
  "(ucast (ucast v :: byte) OR push_bit 8 (ucast (ucast (drop_bit 8 v) :: byte))
     OR push_bit 16 (ucast (ucast (drop_bit 16 v) :: byte))
     OR push_bit 24 (ucast (ucast (drop_bit 24 v) :: byte))) = (v :: u32)"
  apply (rule bit_word_eqI)
  apply (simp add: bit_simps)
  subgoal for n
    by (cases "24 \<le> n"; cases "16 \<le> n"; cases "8 \<le> n") (auto simp: not_less)
  done

lemma Uint32_le32: "Uint32 (le32 w @ rest) = Inr w"
  by (simp add: Uint32_def le32_def le_roundtrip)

lemma Uint32_short: "length b < 4 \<Longrightarrow> Uint32 b = Inl PanicOutOfRange"
  by (simp add: Uint32_def)

lemma Uint32_cases: "Uint32 b = Inl PanicOutOfRange \<or> (\<exists>w. Uint32 b = Inr w)"
  by (simp add: Uint32_def)

lemma equalHash_loop_eq: "length a = length b \<Longrightarrow> equalHash_loop a b \<longleftrightarrow> a = b"
  by (induction a b rule: equalHash_loop.induct) auto

lemma equalHash_iff: "equalHash a b \<longleftrightarrow> a = b"
  by (auto simp: equalHash_def equalHash_loop_eq)

text \<open>The number that four bytes hold in little-endian order.\<close>

lemma nat_le_bytes:
  fixes x :: nat
  assumes "x < 4294967296"
  shows "x mod 256 + 256 * (x div 256 mod 256) + 65536 * (x div 65536 mod 256)
         + 16777216 * (x div 16777216 mod 256) = x"
proof -
  define a where "a = x div 256"
  define b where "b = a div 256"
  define c where "c = b div 256"
  have x: "x = x mod 256 + 256 * a"
    by (simp add: a_def)
  have a: "a = a mod 256 + 256 * b"
    by (simp add: b_def)
  have b: "b = b mod 256 + 256 * c"
    by (simp add: c_def)
  have b': "b = x div 65536"
    by (simp add: b_def a_def div_mult2_eq)
  have c': "c = x div 16777216"
    by (simp add: c_def b' div_mult2_eq)
  have "c < 256"
    using assms unfolding c' by simp
  then have c: "c mod 256 = c"
    by simp
  have "x mod 256 + 256 * (a mod 256) + 65536 * (b mod 256) + 16777216 * (c mod 256) = x"
    using x a b c by linarith
  then show ?thesis
    by (simp only: a_def [symmetric] b' [symmetric] c' [symmetric])
qed

lemma unat_u32_bytes:
  fixes w :: u32
  shows "unat (ucast w :: byte) + 256 * unat (ucast (drop_bit 8 w) :: byte)
         + 65536 * unat (ucast (drop_bit 16 w) :: byte)
         + 16777216 * unat (ucast (drop_bit 24 w) :: byte) = unat w"
proof -
  have lt: "unat w < 4294967296"
    using unsigned_less [of w, where 'a = nat] by simp
  have "unat (ucast w :: byte) = unat w mod 256"
    by (simp add: unsigned_ucast_eq take_bit_eq_mod)
  moreover have "unat (ucast (drop_bit 8 w) :: byte) = unat w div 256 mod 256"
    by (simp add: unsigned_ucast_eq take_bit_eq_mod unat_drop_bit_eq drop_bit_eq_div unat_div)
  moreover have "unat (ucast (drop_bit 16 w) :: byte) = unat w div 65536 mod 256"
    by (simp add: unsigned_ucast_eq take_bit_eq_mod unat_drop_bit_eq drop_bit_eq_div unat_div)
  moreover have "unat (ucast (drop_bit 24 w) :: byte) = unat w div 16777216 mod 256"
    by (simp add: unsigned_ucast_eq take_bit_eq_mod unat_drop_bit_eq drop_bit_eq_div unat_div)
  ultimately show ?thesis
    using nat_le_bytes [OF lt] by simp
qed

lemma le_nat_le32: "le_nat (le32 w) = unat w"
  using unat_u32_bytes [of w] by (simp add: le_nat_def le32_def)

lemma copy_at_pad:
  "length pre = off \<Longrightarrow> length src \<le> n \<Longrightarrow>
   copy_at (pre @ replicate n z) off src = (pre @ src) @ replicate (n - length src) z"
  by (simp add: copy_at_def)

lemma PutUint32_pad:
  "length pre = off \<Longrightarrow> 4 \<le> n \<Longrightarrow>
   PutUint32 (pre @ replicate n z) off v = (pre @ le32 v) @ replicate (n - 4) z"
  by (simp add: PutUint32_def copy_at_pad length_le32)

lemma Encode_layout:
  "Encode e =
     le32 (word_of_nat (length (e_key e) + length (e_value e) + 32))
     @ le32 (word_of_nat (length (e_key e))) @ e_key e
     @ le32 (word_of_nat (length (e_value e))) @ e_value e @ sha1_Sum (e_value e)"
proof -
  define kl vl where "kl = length (e_key e)" and "vl = length (e_value e)"
  define s :: u32 where "s = word_of_nat (kl + vl + 12 + 20)"
  define r1 where "r1 = PutUint32 (replicate (kl + vl + 12 + 20) 0) 0 s"
  define r2 where "r2 = PutUint32 r1 4 (word_of_nat kl)"
  define r3 where "r3 = copy_at r2 8 (e_key e)"
  define r4 where "r4 = PutUint32 r3 (kl + 8) (word_of_nat vl)"
  define r5 where "r5 = copy_at r4 (kl + 12) (e_value e)"
  define r6 where "r6 = copy_at r5 (kl + 12 + vl) (sha1_Sum (e_value e))"
  have e: "Encode e = r6"
    unfolding Encode_def Let_def length_sha1_Sum r6_def r5_def r4_def r3_def r2_def r1_def s_def
      kl_def vl_def by (rule refl)
  have 1: "r1 = le32 s @ replicate (kl + vl + 28) 0"
    unfolding r1_def using PutUint32_pad [of "[]" 0 "kl + vl + 32" 0 s] by (simp add: ac_simps)
  have 2: "r2 = (le32 s @ le32 (word_of_nat kl)) @ replicate (kl + vl + 24) 0"
    unfolding r2_def 1 using PutUint32_pad [of "le32 s" 4 "kl + vl + 28" 0 "word_of_nat kl"]
    by (simp add: length_le32 ac_simps)
  have 3: "r3 = (le32 s @ le32 (word_of_nat kl) @ e_key e) @ replicate (vl + 24) 0"
    unfolding r3_def 2
    using copy_at_pad [of "le32 s @ le32 (word_of_nat kl)" 8 "e_key e" "kl + vl + 24" 0]
    by (simp add: length_le32 kl_def ac_simps)
  have 4: "r4 = (le32 s @ le32 (word_of_nat kl) @ e_key e @ le32 (word_of_nat vl))
                @ replicate (vl + 20) 0"
    unfolding r4_def 3
    using PutUint32_pad [of "le32 s @ le32 (word_of_nat kl) @ e_key e" "kl + 8" "vl + 24" 0
        "word_of_nat vl"]
    by (simp add: length_le32 kl_def ac_simps)
  have 5: "r5 = (le32 s @ le32 (word_of_nat kl) @ e_key e @ le32 (word_of_nat vl) @ e_value e)
                @ replicate 20 0"
    unfolding r5_def 4
    using copy_at_pad [of "le32 s @ le32 (word_of_nat kl) @ e_key e @ le32 (word_of_nat vl)"
        "kl + 12" "e_value e" "vl + 20" 0]
    by (simp add: length_le32 kl_def vl_def ac_simps)
  have 6: "r6 = le32 s @ le32 (word_of_nat kl) @ e_key e @ le32 (word_of_nat vl) @ e_value e
                @ sha1_Sum (e_value e)"
    unfolding r6_def 5
    using copy_at_pad [of "le32 s @ le32 (word_of_nat kl) @ e_key e @ le32 (word_of_nat vl) @ e_value e"
        "kl + 12 + vl" "sha1_Sum (e_value e)" 20 0]
    by (simp add: length_le32 length_sha1_Sum kl_def vl_def ac_simps)
  show ?thesis
    unfolding e 6 by (simp add: s_def kl_def vl_def add.commute add.left_commute)
qed

lemma length_Encode: "length (Encode e) = length (e_key e) + length (e_value e) + 32"
  by (simp add: Encode_layout length_le32 length_sha1_Sum)

lemma Uint32_long: "4 \<le> length b \<Longrightarrow> \<exists>w. Uint32 b = Inr w"
  by (simp add: Uint32_def)

text \<open>Decode on a buffer, by the fields it reads.\<close>

lemma Decode_fields:
  "Decode input =
     (if reads_past_end input then Inl PanicOutOfRange
      else let kl = length_field input 4;
               vl = length_field input (8 + kl);
               k = take kl (drop 8 input);
               v = take vl (drop (12 + kl) input)
           in if drop (12 + kl + vl) input = sha1_Sum v
              then Inr \<lparr>e_key = k, e_value = v\<rparr>
              else Inl (ErrHashMismatch k))"
proof (cases "length input < 8")
  case True
  then show ?thesis
    by (simp add: Decode_short_panics reads_past_end_def)
next
  case l8: False
  then have "4 \<le> length (drop 4 input)"
    by simp
  then obtain klw where klw: "Uint32 (drop 4 input) = Inr klw"
    using Uint32_long by blast
  define kl where "kl = unat klw"
  have kl: "length_field input 4 = kl"
    by (simp add: length_field_def klw kl_def)
  show ?thesis
  proof (cases "length input < 12 + kl")
    case True
    then have "Decode input = Inl PanicOutOfRange"
      using l8 klw
      by (auto simp: Decode_def slice_from_def slice_def Uint32_short kl_def Let_def
          split: sum.splits)
    then show ?thesis
      using True by (simp add: reads_past_end_def kl)
  next
    case l12: False
    then have "4 \<le> length (drop (8 + kl) input)"
      by simp
    then obtain vlw where vlw: "Uint32 (drop (8 + kl) input) = Inr vlw"
      using Uint32_long by blast
    define vl where "vl = unat vlw"
    have vl: "length_field input (8 + kl) = vl"
      by (simp add: length_field_def vlw vl_def)
    show ?thesis
    proof (cases "length input < 12 + kl + vl")
      case True
      then have "Decode input = Inl PanicOutOfRange"
        using l8 l12 klw vlw
        by (simp add: Decode_def slice_from_def slice_def kl_def [symmetric] vl_def [symmetric]
            Let_def)
      then show ?thesis
        using True by (simp add: reads_past_end_def kl vl)
    next
      case False
      then have "\<not> reads_past_end input"
        using l8 l12 by (simp add: reads_past_end_def kl vl)
      moreover have "Decode input =
          (if drop (12 + kl + vl) input = sha1_Sum (take vl (drop (12 + kl) input))
           then Inr \<lparr>e_key = take kl (drop 8 input), e_value = take vl (drop (12 + kl) input)\<rparr>
           else Inl (ErrHashMismatch (take kl (drop 8 input))))"
        using l8 l12 False klw vlw
        by (simp add: Decode_def slice_from_def slice_def kl_def [symmetric] vl_def [symmetric]
            Let_def equalHash_iff)
      ultimately show ?thesis
        by (simp add: kl vl Let_def)
    qed
  qed
qed

lemma Decode_record:
  assumes "length s4 = 4" "length k = unat kw" "length v = unat vw"
  shows "Decode (s4 @ le32 kw @ k @ le32 vw @ v @ h) =
           (if h = sha1_Sum v then Inr \<lparr>e_key = k, e_value = v\<rparr>
            else Inl (ErrHashMismatch k))"
  using assms
  by (simp add: Decode_def slice_from_def slice_def Uint32_le32 length_le32 equalHash_iff Let_def)

lemma unat_word_of_nat_u32: "n < 2 ^ 32 \<Longrightarrow> unat (word_of_nat n :: u32) = n"
  by (simp add: unat_of_nat)

text \<open>
  Claim C9, amended. For every key and value whose encoded size
  \<open>12 + key_len + value_len + 20\<close> is below \<open>2 ^ 32\<close>, \<^verbatim>\<open>Encode\<close> produces
  \<open>total_size | key_len | key | value_len | value | checksum\<close>: the three length fields
  are four bytes each and hold, in little-endian order, the length of the whole byte
  sequence, of the key and of the value; the checksum is the 20 bytes of SHA-1 of the
  value; and \<open>total_size = 12 + key_len + value_len + 20\<close> is the length of the bytes
  produced.
\<close>

theorem Encode_layout_within_u32:
  assumes "12 + length (e_key e) + length (e_value e) + 20 < 2 ^ 32"
  shows "Encode e = le32 (word_of_nat (length (Encode e)))
                    @ le32 (word_of_nat (length (e_key e))) @ e_key e
                    @ le32 (word_of_nat (length (e_value e))) @ e_value e
                    @ sha1_Sum (e_value e)
         \<and> length (sha1_Sum (e_value e)) = 20
         \<and> le_nat (le32 (word_of_nat (length (Encode e))))
             = 12 + length (e_key e) + length (e_value e) + 20
         \<and> le_nat (le32 (word_of_nat (length (e_key e)))) = length (e_key e)
         \<and> le_nat (le32 (word_of_nat (length (e_value e)))) = length (e_value e)
         \<and> length (Encode e) = 12 + length (e_key e) + length (e_value e) + 20"
proof -
  have t: "unat (word_of_nat (length (e_key e) + length (e_value e) + 32) :: u32)
           = length (e_key e) + length (e_value e) + 32"
    using assms by (intro unat_word_of_nat_u32) simp
  have k: "unat (word_of_nat (length (e_key e)) :: u32) = length (e_key e)"
    using assms by (intro unat_word_of_nat_u32) simp
  have v: "unat (word_of_nat (length (e_value e)) :: u32) = length (e_value e)"
    using assms by (intro unat_word_of_nat_u32) simp
  have l: "Encode e = le32 (word_of_nat (length (Encode e)))
                    @ le32 (word_of_nat (length (e_key e))) @ e_key e
                    @ le32 (word_of_nat (length (e_value e))) @ e_value e
                    @ sha1_Sum (e_value e)"
    unfolding length_Encode by (rule Encode_layout)
  have s: "le_nat (le32 (word_of_nat (length (Encode e))))
             = 12 + length (e_key e) + length (e_value e) + 20"
    by (simp only: le_nat_le32 t length_Encode)
  have n: "length (Encode e) = 12 + length (e_key e) + length (e_value e) + 20"
    by (simp add: length_Encode)
  show ?thesis
    using l s n by (simp only: le_nat_le32 k v length_sha1_Sum)
qed

text \<open>
  The layout at the key "k1" and the value "v1": 36 bytes.
\<close>

theorem Encode_layout_within_u32_witness:
  "Encode \<lparr>e_key = [0x6B, 0x31], e_value = [0x76, 0x31]\<rparr>
     = le32 36 @ le32 2 @ [0x6B, 0x31] @ le32 2 @ [0x76, 0x31] @ sha1_Sum [0x76, 0x31]
   \<and> le_nat (le32 36) = 36 \<and> le_nat (le32 2) = 2
   \<and> length (Encode \<lparr>e_key = [0x6B, 0x31], e_value = [0x76, 0x31]\<rparr>) = 36"
  using Encode_layout_within_u32 [of "\<lparr>e_key = [0x6B, 0x31], e_value = [0x76, 0x31]\<rparr>"]
  by (simp add: length_Encode length_le32)

text \<open>
  Claim C9 as stated, for every key and value, fails: \<^verbatim>\<open>uint32(size)\<close> keeps the low 32
  bits. For a key of \<open>2 ^ 32\<close> zero bytes and the empty value the total-size field holds
  32, and the byte sequence is \<open>2 ^ 32 + 32\<close> bytes long.
\<close>

theorem Encode_total_size_wraps:
  "le_nat (take 4 (Encode \<lparr>e_key = replicate 4294967296 0, e_value = []\<rparr>)) = 32
   \<and> length (Encode \<lparr>e_key = replicate 4294967296 0, e_value = []\<rparr>) = 4294967328"
  by (simp add: Encode_layout length_le32 length_sha1_Sum le_nat_le32)

lemma Decode_Encode_roundtrip:
  assumes "length (e_key e) < 2 ^ 32" and "length (e_value e) < 2 ^ 32"
  shows "Decode (Encode e) = Inr e"
proof -
  have "Decode (Encode e) = Inr \<lparr>e_key = e_key e, e_value = e_value e\<rparr>"
    unfolding Encode_layout
    using assms by (subst Decode_record) (simp_all add: length_le32 unat_word_of_nat_u32)
  then show ?thesis
    by simp
qed

text \<open>
  Claim C4, amended. For every key and value shorter than \<open>2 ^ 32\<close> bytes each,
  decoding the bytes that \<^verbatim>\<open>Encode\<close> produces yields the entry again; the empty key and
  the empty value are included.
\<close>

theorem Decode_Encode:
  assumes "length (e_key e) < 2 ^ 32" and "length (e_value e) < 2 ^ 32"
  shows "Decode (Encode e) = Inr e"
  using assms by (rule Decode_Encode_roundtrip)

text \<open>
  The round trip at the empty entry and at the key "k" with the value "v1".
\<close>

theorem Decode_Encode_witness:
  "Decode (Encode \<lparr>e_key = [], e_value = []\<rparr>) = Inr \<lparr>e_key = [], e_value = []\<rparr>
   \<and> Decode (Encode \<lparr>e_key = [0x6B], e_value = [0x76, 0x31]\<rparr>)
       = Inr \<lparr>e_key = [0x6B], e_value = [0x76, 0x31]\<rparr>"
  using Decode_Encode [of "\<lparr>e_key = [], e_value = []\<rparr>"]
    Decode_Encode [of "\<lparr>e_key = [0x6B], e_value = [0x76, 0x31]\<rparr>"]
  by simp

text \<open>
  Claim C4 as stated, for every pair of byte sequences, fails: the length fields are 32
  bits wide. A key of \<open>2 ^ 32\<close> zero bytes is encoded with the key length 0, and
  \<^verbatim>\<open>Decode\<close> then finds a checksum region that is not 20 bytes long.
\<close>

theorem Decode_Encode_oversize_key:
  "Decode (Encode \<lparr>e_key = replicate 4294967296 0, e_value = []\<rparr>) = Inl (ErrHashMismatch [])"
proof -
  have u: "Uint32 (replicate 4294967296 0 @ xs) = Inr 0" for xs
    by (simp add: Uint32_def nth_append)
  show ?thesis
    by (simp add: Encode_layout Decode_def slice_from_def slice_def Uint32_le32 length_le32
        length_sha1_Sum equalHash_def u Let_def)
qed

text \<open>
  Claim C3, amended. \<^verbatim>\<open>Decode\<close> is total in this sense: on a buffer whose length fields
  reach past its end (or that is too short to hold them) it panics with an index or slice
  bound out of range; there is no error for malformed lengths. On every other buffer it
  returns the entry when the bytes after the value are the SHA-1 of the value, and the
  hash-mismatch error otherwise.
\<close>

theorem Decode_outcomes:
  "Decode input =
     (if reads_past_end input then Inl PanicOutOfRange
      else if drop (12 + length_field input 4
                      + length_field input (8 + length_field input 4)) input
              = sha1_Sum (take (length_field input (8 + length_field input 4))
                            (drop (12 + length_field input 4) input))
      then Inr \<lparr>e_key = take (length_field input 4) (drop 8 input),
                e_value = take (length_field input (8 + length_field input 4))
                            (drop (12 + length_field input 4) input)\<rparr>
      else Inl (ErrHashMismatch (take (length_field input 4) (drop 8 input))))"
  by (simp add: Decode_fields Let_def)

text \<open>
  Claim C3 as stated fails: a buffer of 12 bytes whose key length field says 100 makes
  \<^verbatim>\<open>Decode\<close> panic, and so does the empty buffer; neither gets an error value.
\<close>

theorem Decode_panics_on_bad_lengths:
  "reads_past_end [12, 0, 0, 0, 100, 0, 0, 0, 0, 0, 0, 0]
   \<and> Decode [12, 0, 0, 0, 100, 0, 0, 0, 0, 0, 0, 0] = Inl PanicOutOfRange
   \<and> Decode [] = Inl PanicOutOfRange
   \<and> is_panic PanicOutOfRange"
  by (simp add: Decode_fields reads_past_end_def length_field_def Uint32_def)

section \<open>Reading one record from a stream\<close>

lemma Peek_loop_done:
  "\<not> (length (rbuf b) < n \<and> length (rbuf b) < bufSize \<and> rerr b = None) \<Longrightarrow> Peek_loop n b = b"
  by (subst Peek_loop.simps) auto

lemma Peek_loop_step:
  "length (rbuf b) < n \<Longrightarrow> length (rbuf b) < bufSize \<Longrightarrow> rerr b = None \<Longrightarrow>
   Peek_loop n b = Peek_loop n (fill b)"
  by (subst Peek_loop.simps) auto

lemma Peek_loop_fresh:
  "Peek_loop 4 (NewReader s) =
     (if length s < 4 then \<lparr>rbuf = s, rsrc = [], rerr = Some EOF\<rparr>
      else \<lparr>rbuf = take bufSize s, rsrc = drop bufSize s, rerr = None\<rparr>)"
proof (cases "s = []")
  case True
  then show ?thesis
    by (simp add: NewReader_def Peek_loop_step Peek_loop_done fill_def bufSize_def)
next
  case ne: False
  define b1 where "b1 = fill (NewReader s)"
  have b1: "b1 = \<lparr>rbuf = take bufSize s, rsrc = drop bufSize s, rerr = None\<rparr>"
    using ne by (simp add: b1_def fill_def NewReader_def Let_def min_def)
  have s1: "Peek_loop 4 (NewReader s) = Peek_loop 4 b1"
    unfolding b1_def by (rule Peek_loop_step) (simp_all add: NewReader_def bufSize_def)
  show ?thesis
  proof (cases "length s < 4")
    case True
    then have b1': "b1 = \<lparr>rbuf = s, rsrc = [], rerr = None\<rparr>"
      by (simp add: b1 bufSize_def)
    have "Peek_loop 4 b1 = Peek_loop 4 (fill b1)"
      using True by (intro Peek_loop_step) (simp_all add: b1' bufSize_def)
    also have "fill b1 = \<lparr>rbuf = s, rsrc = [], rerr = Some EOF\<rparr>"
      by (simp add: b1' fill_def)
    also have "Peek_loop 4 \<dots> = \<lparr>rbuf = s, rsrc = [], rerr = Some EOF\<rparr>"
      by (rule Peek_loop_done) simp
    finally show ?thesis
      using True s1 by simp
  next
    case False
    then have "Peek_loop 4 b1 = b1"
      by (intro Peek_loop_done) (simp add: b1 bufSize_def min_def)
    then show ?thesis
      using False s1 b1 by simp
  qed
qed

lemma DecodeFromReader_short:
  assumes "length s < 4"
  shows "DecodeFromReader (NewReader s) = (\<lparr>rbuf = s, rsrc = [], rerr = None\<rparr>, 0, Inl EOF)"
  using assms by (simp add: DecodeFromReader_def Peek_def Peek_loop_fresh bufSize_def)

lemma Uint32_take4: "4 \<le> length s \<Longrightarrow> Uint32 (take 4 s) = Uint32 s"
  by (simp add: Uint32_def)

lemma Uint32_length_field: "4 \<le> length s \<Longrightarrow> \<exists>w. Uint32 s = Inr w \<and> unat w = length_field s 0"
  by (simp add: Uint32_def length_field_def)

lemma DecodeFromReader_fresh:
  assumes "4 \<le> length s"
  shows "DecodeFromReader (NewReader s) =
           (\<lparr>rbuf = drop (min (length_field s 0) (min (length s) bufSize)) (take bufSize s),
             rsrc = drop bufSize s, rerr = None\<rparr>,
            min (length_field s 0) (min (length s) bufSize),
            Decode (take (min (length_field s 0) (min (length s) bufSize)) s
                    @ replicate (length_field s 0 - min (length_field s 0) (min (length s) bufSize)) 0))"
proof -
  obtain w where w: "Uint32 s = Inr w" "unat w = length_field s 0"
    using Uint32_length_field [OF assms] by blast
  have p: "Peek 4 (NewReader s) =
             (take 4 s, None, \<lparr>rbuf = take bufSize s, rsrc = drop bufSize s, rerr = None\<rparr>)"
    using assms by (simp add: Peek_def Peek_loop_fresh bufSize_def min_def)
  have u: "Uint32 (take 4 s) = Inr w"
    using assms w by (simp add: Uint32_take4)
  show ?thesis
  proof (cases "unat w = 0")
    case True
    then show ?thesis
      using assms w
      by (simp add: DecodeFromReader_def p u Read_def bufSize_def)
  next
    case False
    moreover have "s \<noteq> []"
      using assms by auto
    ultimately show ?thesis
      using assms w
      by (simp add: DecodeFromReader_def p u Read_def bufSize_def Let_def min_def)
  qed
qed

text \<open>
  A reader that has four bytes or more in its buffer does not fill it: the record is what
  the buffer holds, however much of it that is.
\<close>

lemma DecodeFromReader_buffered:
  assumes "4 \<le> length (rbuf b)" and "0 < length_field (rbuf b) 0"
  shows "DecodeFromReader b =
           (b\<lparr>rbuf := drop (min (length_field (rbuf b) 0) (length (rbuf b))) (rbuf b)\<rparr>,
            min (length_field (rbuf b) 0) (length (rbuf b)),
            Decode (take (min (length_field (rbuf b) 0) (length (rbuf b))) (rbuf b)
                    @ replicate (length_field (rbuf b) 0
                                 - min (length_field (rbuf b) 0) (length (rbuf b))) 0))"
proof -
  obtain w where w: "Uint32 (rbuf b) = Inr w" "unat w = length_field (rbuf b) 0"
    using Uint32_length_field [OF assms(1)] by blast
  have p: "Peek_loop 4 b = b"
    using assms(1) by (intro Peek_loop_done) simp
  have ne: "rbuf b \<noteq> []"
    using assms(1) by auto
  show ?thesis
    using assms w ne
    by (simp add: DecodeFromReader_def Peek_def p bufSize_def Uint32_take4 Read_def Let_def)
qed


text \<open>The first six bytes of a record of 36, padded with zeros to its declared size.\<close>

lemma Decode_cut_record:
  "Decode ([36, 0, 0, 0, 2, 0] @ replicate 30 0) = Inl (ErrHashMismatch [0, 0])"
proof -
  have r: "replicate 30 (0 :: byte) = [0, 0, 0, 0, 0, 0, 0, 0] @ replicate 22 0"
    by (simp add: numeral_eq_Suc)
  have "[36, 0, 0, 0, 2, 0] @ replicate 30 (0 :: byte)
        = [36, 0, 0, 0] @ le32 2 @ [0, 0] @ le32 0 @ [] @ replicate 22 0"
    unfolding r by (simp add: le32_def)
  moreover have "replicate 22 (0 :: byte) \<noteq> sha1_Sum []"
  proof
    assume "replicate 22 (0 :: byte) = sha1_Sum []"
    then have "length (replicate 22 (0 :: byte)) = length (sha1_Sum [])"
      by simp
    then show False
      by (simp add: length_sha1_Sum)
  qed
  moreover have "Decode ([36, 0, 0, 0] @ le32 2 @ [0, 0] @ le32 0 @ [] @ replicate 22 0) =
      (if replicate 22 0 = sha1_Sum [] then Inr \<lparr>e_key = [0, 0], e_value = []\<rparr>
       else Inl (ErrHashMismatch [0, 0]))"
    by (rule Decode_record) simp_all
  ultimately show ?thesis
    by simp
qed


lemma Decode_not_EOF: "Decode input \<noteq> Inl EOF"
  by (simp add: Decode_fields Let_def)

text \<open>
  Claim C8, amended. On a fresh reader over a stream, \<^verbatim>\<open>DecodeFromReader\<close> returns the
  end-of-data condition \<^verbatim>\<open>io.EOF\<close>, with count 0, exactly when fewer than four bytes
  remain before the peek of the size prefix: no byte at all or a size prefix cut short
  alike. No condition for a truncated record exists: when four bytes or more remain, the
  caller gets an outcome of \<^verbatim>\<open>Decode\<close>, which is an entry, the hash-mismatch error or the
  out-of-range panic, and never \<^verbatim>\<open>io.EOF\<close>.
\<close>

theorem DecodeFromReader_end_of_data:
  "(if length s < 4 then snd (DecodeFromReader (NewReader s)) = (0, Inl EOF)
    else snd (snd (DecodeFromReader (NewReader s))) \<noteq> Inl EOF)
   \<and> snd (snd (DecodeFromReader (NewReader s)))
       \<in> {Inl EOF, Inl PanicOutOfRange} \<union> range (\<lambda>k. Inl (ErrHashMismatch k)) \<union> range Inr"
proof (cases "length s < 4")
  case True
  then show ?thesis
    by (simp add: DecodeFromReader_short)
next
  case False
  then have "4 \<le> length s"
    by simp
  moreover have "Decode input
       \<in> {Inl EOF, Inl PanicOutOfRange} \<union> range (\<lambda>k. Inl (ErrHashMismatch k)) \<union> range Inr"
    for input
    by (simp add: Decode_fields Let_def)
  ultimately show ?thesis
    using False by (simp add: DecodeFromReader_fresh Decode_not_EOF)
qed

text \<open>
  Claim C8 as stated fails: a stream of two bytes, a size prefix cut short, gets the same
  \<^verbatim>\<open>io.EOF\<close> as the empty stream; and a stream that ends six bytes into a record of 36 gets
  the hash-mismatch error that a record with a damaged checksum gets.
\<close>

theorem DecodeFromReader_partial_prefix_is_EOF:
  "snd (DecodeFromReader (NewReader [])) = (0, Inl EOF)
   \<and> snd (DecodeFromReader (NewReader [36, 0])) = (0, Inl EOF)
   \<and> snd (DecodeFromReader (NewReader [36, 0, 0, 0, 2, 0])) = (6, Inl (ErrHashMismatch [0, 0]))"
proof -
  have f0: "length_field [36, 0, 0, 0, 2, 0] 0 = 36"
    by (simp add: length_field_def Uint32_def)
  show ?thesis
    using Decode_cut_record
    by (simp add: DecodeFromReader_short DecodeFromReader_fresh f0 bufSize_def)
qed

section \<open>Appending and rotation, opening and closing\<close>

lemma map_of_OpenFile_create:
  "map_of (fst (OpenFile_create fs name)) =
     (map_of fs)(name \<mapsto> (case map_of fs name of None \<Rightarrow> [] | Some c \<Rightarrow> c))"
  by (auto simp: OpenFile_create_def fun_eq_iff map_add_def split: option.splits)

lemma content_OpenFile_create:
  "(case map_of (fst (OpenFile_create fs name)) name of None \<Rightarrow> [] | Some c \<Rightarrow> c)
   = (case map_of fs name of None \<Rightarrow> [] | Some c \<Rightarrow> c)"
  by (simp add: map_of_OpenFile_create split: option.splits)

lemma snd_OpenFile_create: "snd (OpenFile_create fs name) = \<lparr>fname = name, fclosed = False\<rparr>"
  by (simp add: OpenFile_create_def)

lemma File_Write_open:
  "\<not> fclosed h \<Longrightarrow>
   File_Write fs (Some h) data =
     (AList.update (fname h) ((case map_of fs (fname h) of None \<Rightarrow> [] | Some c \<Rightarrow> c) @ data) fs,
      length data, None)"
  by (simp add: File_Write_def)

text \<open>
  Within the range of a 64-bit \<^verbatim>\<open>int\<close> the conversion changes nothing.
\<close>

lemma int64_id: "- (2 ^ 63) \<le> i \<Longrightarrow> i < 2 ^ 63 \<Longrightarrow> int64 i = i"
  by (simp add: int64_def)

lemma writeEntry_rotate_int64:
  assumes "currentSegment db = Some h" and "\<not> fclosed h"
    and "segmentLimit db < currentOffset db + int (length (Encode \<lparr>e_key = k, e_value = v\<rparr>))"
  shows "writeEntry (db, fs) k v =
    ((db\<lparr>currentSegmentId := int64 (currentSegmentId db + 1),
         currentSegment :=
           Some \<lparr>fname = segmentFilename (int64 (currentSegmentId db + 1)), fclosed = False\<rparr>,
         index := (index db)(k \<mapsto>
                    \<lparr>segmentId = int64 (currentSegmentId db + 1), offset = 0\<rparr>),
         currentOffset := int (length (Encode \<lparr>e_key = k, e_value = v\<rparr>))\<rparr>,
      AList.update (segmentFilename (int64 (currentSegmentId db + 1)))
        ((case map_of fs (segmentFilename (int64 (currentSegmentId db + 1))) of
            None \<Rightarrow> [] | Some c \<Rightarrow> c)
         @ Encode \<lparr>e_key = k, e_value = v\<rparr>)
        (fst (OpenFile_create fs (segmentFilename (int64 (currentSegmentId db + 1)))))),
     None)"
proof -
  define nid where "nid = int64 (currentSegmentId db + 1)"
  obtain fs1 f where o: "OpenFile_create fs (segmentFilename nid) = (fs1, f)"
    by (cases "OpenFile_create fs (segmentFilename nid)")
  have f: "f = \<lparr>fname = segmentFilename nid, fclosed = False\<rparr>"
    using snd_OpenFile_create [of fs "segmentFilename nid"] o by simp
  have c: "(case map_of fs1 (segmentFilename nid) of None \<Rightarrow> [] | Some c \<Rightarrow> c)
           = (case map_of fs (segmentFilename nid) of None \<Rightarrow> [] | Some c \<Rightarrow> c)"
    using content_OpenFile_create [of fs "segmentFilename nid"] o by simp
  show ?thesis
    using assms unfolding nid_def [symmetric]
    by (simp add: writeEntry_def File_Close_def createNewSegment_def Let_def File_Write_def
        nid_def [symmetric] o f c)
qed

lemma writeEntry_rotate_eq:
  assumes "currentSegment db = Some h" and "\<not> fclosed h"
    and "segmentLimit db < currentOffset db + int (length (Encode \<lparr>e_key = k, e_value = v\<rparr>))"
    and "- (2 ^ 63) \<le> currentSegmentId db" and "currentSegmentId db < 2 ^ 63 - 1"
  shows "writeEntry (db, fs) k v =
    ((db\<lparr>currentSegmentId := currentSegmentId db + 1,
         currentSegment := Some \<lparr>fname = segmentFilename (currentSegmentId db + 1), fclosed = False\<rparr>,
         index := (index db)(k \<mapsto> \<lparr>segmentId = currentSegmentId db + 1, offset = 0\<rparr>),
         currentOffset := int (length (Encode \<lparr>e_key = k, e_value = v\<rparr>))\<rparr>,
      AList.update (segmentFilename (currentSegmentId db + 1))
        ((case map_of fs (segmentFilename (currentSegmentId db + 1)) of None \<Rightarrow> [] | Some c \<Rightarrow> c)
         @ Encode \<lparr>e_key = k, e_value = v\<rparr>)
        (fst (OpenFile_create fs (segmentFilename (currentSegmentId db + 1))))),
     None)"
proof -
  have "int64 (currentSegmentId db + 1) = currentSegmentId db + 1"
    using assms(4,5) by (intro int64_id) simp_all
  then show ?thesis
    using writeEntry_rotate_int64 [OF assms(1-3), of fs] by simp
qed

text \<open>
  The close of the current handle comes first, and its error ends \<^verbatim>\<open>writeEntry\<close>: with a
  handle that is closed already, or with none, nothing is created and nothing written.
\<close>

lemma writeEntry_rotate_closed:
  assumes "currentSegment db = Some h" and "fclosed h"
    and "segmentLimit db < currentOffset db + int (length (Encode \<lparr>e_key = k, e_value = v\<rparr>))"
  shows "writeEntry (db, fs) k v = ((db, fs), Some ErrClosed)"
  using assms by (cases db) (simp add: writeEntry_def File_Close_def Let_def)

lemma writeEntry_rotate_nil:
  assumes "currentSegment db = None"
    and "segmentLimit db < currentOffset db + int (length (Encode \<lparr>e_key = k, e_value = v\<rparr>))"
  shows "writeEntry (db, fs) k v = ((db, fs), Some ErrInvalid)"
  using assms by (cases db) (simp add: writeEntry_def File_Close_def Let_def)

text \<open>
  Claim C6, amended. Before the append, when the current write offset plus the encoded
  size of the entry exceeds the segment limit, \<^verbatim>\<open>writeEntry\<close> first closes the handle of
  the current segment, and the error of that close ends it: with no handle the result is
  \<^verbatim>\<open>ErrInvalid\<close>, with a handle closed already it is \<^verbatim>\<open>ErrClosed\<close>, and in both cases the
  engine and the directory are as they were. Otherwise it creates the segment whose id is
  the previous id plus 1 and sets the offset to 0, and the append goes into the new
  segment: the index maps the key to the new id at offset 0, the new file holds what it
  held before (nothing, for a file that did not exist) followed by the whole encoded
  entry, every other file is as it was, and no error is returned. The entry's own size
  against the limit plays no part, so an entry larger than the limit is written whole as
  well. The previous id is a 64-bit \<^verbatim>\<open>int\<close> below the largest one, \<^verbatim>\<open>2^63 - 1\<close>.
\<close>

theorem writeEntry_rotates:
  assumes "segmentLimit db < currentOffset db + int (length (Encode \<lparr>e_key = k, e_value = v\<rparr>))"
    and "- (2 ^ 63) \<le> currentSegmentId db" and "currentSegmentId db < 2 ^ 63 - 1"
  shows "writeEntry (db, fs) k v =
     (case currentSegment db of
        None \<Rightarrow> ((db, fs), Some ErrInvalid)
      | Some h \<Rightarrow>
          if fclosed h then ((db, fs), Some ErrClosed)
          else ((db\<lparr>currentSegmentId := currentSegmentId db + 1,
                    currentSegment :=
                      Some \<lparr>fname = segmentFilename (currentSegmentId db + 1),
                            fclosed = False\<rparr>,
                    index := (index db)(k \<mapsto>
                               \<lparr>segmentId = currentSegmentId db + 1, offset = 0\<rparr>),
                    currentOffset := int (length (Encode \<lparr>e_key = k, e_value = v\<rparr>))\<rparr>,
                 AList.update (segmentFilename (currentSegmentId db + 1))
                   ((case map_of fs (segmentFilename (currentSegmentId db + 1)) of
                       None \<Rightarrow> [] | Some c \<Rightarrow> c)
                    @ Encode \<lparr>e_key = k, e_value = v\<rparr>)
                   (fst (OpenFile_create fs (segmentFilename (currentSegmentId db + 1))))),
                None))
   \<and> map_of (AList.update (segmentFilename (currentSegmentId db + 1))
               ((case map_of fs (segmentFilename (currentSegmentId db + 1)) of
                   None \<Rightarrow> [] | Some c \<Rightarrow> c)
                @ Encode \<lparr>e_key = k, e_value = v\<rparr>)
               (fst (OpenFile_create fs (segmentFilename (currentSegmentId db + 1)))))
       = (map_of fs)(segmentFilename (currentSegmentId db + 1) \<mapsto>
           (case map_of fs (segmentFilename (currentSegmentId db + 1)) of
              None \<Rightarrow> [] | Some c \<Rightarrow> c) @ Encode \<lparr>e_key = k, e_value = v\<rparr>)"
proof -
  have m: "map_of (AList.update (segmentFilename (currentSegmentId db + 1))
               ((case map_of fs (segmentFilename (currentSegmentId db + 1)) of
                   None \<Rightarrow> [] | Some c \<Rightarrow> c)
                @ Encode \<lparr>e_key = k, e_value = v\<rparr>)
               (fst (OpenFile_create fs (segmentFilename (currentSegmentId db + 1)))))
       = (map_of fs)(segmentFilename (currentSegmentId db + 1) \<mapsto>
           (case map_of fs (segmentFilename (currentSegmentId db + 1)) of
              None \<Rightarrow> [] | Some c \<Rightarrow> c) @ Encode \<lparr>e_key = k, e_value = v\<rparr>)"
    by (simp add: update_conv' map_of_OpenFile_create)
  show ?thesis
  proof (cases "currentSegment db")
    case None
    then show ?thesis
      using writeEntry_rotate_nil [OF None assms(1), of fs] m by simp
  next
    case (Some h)
    show ?thesis
    proof (cases "fclosed h")
      case True
      then show ?thesis
        using writeEntry_rotate_closed [OF Some True assms(1), of fs] Some m by simp
    next
      case False
      then show ?thesis
        using writeEntry_rotate_eq [OF Some False assms, of fs] Some m by simp
    qed
  qed
qed

lemma writeEntry_append_eq:
  assumes "currentSegment db = Some h" and "\<not> fclosed h"
    and "\<not> segmentLimit db < currentOffset db + int (length (Encode \<lparr>e_key = k, e_value = v\<rparr>))"
  shows "writeEntry (db, fs) k v =
    ((db\<lparr>index := (index db)(k \<mapsto> \<lparr>segmentId = currentSegmentId db, offset = currentOffset db\<rparr>),
         currentOffset := currentOffset db + int (length (Encode \<lparr>e_key = k, e_value = v\<rparr>))\<rparr>,
      AList.update (fname h)
        ((case map_of fs (fname h) of None \<Rightarrow> [] | Some c \<Rightarrow> c) @ Encode \<lparr>e_key = k, e_value = v\<rparr>)
        fs),
     None)"
  using assms by (simp add: writeEntry_def Let_def File_Write_def)

lemma show_nat_digit: "n < 10 \<Longrightarrow> show_nat n = [''0123456789'' ! n]"
  by (subst show_nat.simps) simp

lemma segmentFilename_1: "segmentFilename 1 = ''segment-1''"
  by (simp add: segmentFilename_def outFileNamePrefix_def show_int_def show_nat_digit)

lemma segmentFilename_2: "segmentFilename 2 = ''segment-2''"
  by (simp add: segmentFilename_def outFileNamePrefix_def show_int_def show_nat_digit)

lemma OpenWithLimit_empty:
  "OpenWithLimit [] limit =
     Inr (\<lparr>segmentLimit = limit,
           currentSegment = Some \<lparr>fname = ''segment-1'', fclosed = False\<rparr>,
           currentSegmentId = 1, currentOffset = 0, index = Map.empty,
           closeCh = False, wg = 1\<rparr>,
          [(''segment-1'', [])])"
proof -
  have "int64 (0 + 1) = 1"
    by (simp add: int64_def)
  then show ?thesis
    by (simp add: OpenWithLimit_def loadSegments_def ReadDir_def segmentIds_of_def
        List.map_filter_simps createNewSegment_def OpenFile_create_def segmentFilename_1)
qed

text \<open>
  With the limit 10 on an empty directory, the entry "k1", "v1" of 36 bytes exceeds the
  limit by itself: segment 1 stays empty, and segment 2 holds the entry whole. With the
  handle of segment 1 closed beforehand, the same call returns \<^verbatim>\<open>ErrClosed\<close> and writes
  nothing.
\<close>

theorem writeEntry_rotates_witness:
  "OpenWithLimit [] 10 =
     Inr (\<lparr>segmentLimit = 10,
           currentSegment = Some \<lparr>fname = ''segment-1'', fclosed = False\<rparr>,
           currentSegmentId = 1, currentOffset = 0, index = Map.empty,
           closeCh = False, wg = 1\<rparr>,
          [(''segment-1'', [])])
   \<and> length (Encode \<lparr>e_key = [0x6B, 0x31], e_value = [0x76, 0x31]\<rparr>) = 36
   \<and> writeEntry
        (\<lparr>segmentLimit = 10,
          currentSegment = Some \<lparr>fname = ''segment-1'', fclosed = False\<rparr>,
          currentSegmentId = 1, currentOffset = 0, index = Map.empty,
          closeCh = False, wg = 1\<rparr>,
         [(''segment-1'', [])]) [0x6B, 0x31] [0x76, 0x31]
       = ((\<lparr>segmentLimit = 10,
            currentSegment = Some \<lparr>fname = ''segment-2'', fclosed = False\<rparr>,
            currentSegmentId = 2, currentOffset = 36,
            index = [[0x6B, 0x31] \<mapsto> \<lparr>segmentId = 2, offset = 0\<rparr>],
            closeCh = False, wg = 1\<rparr>,
           [(''segment-1'', []),
            (''segment-2'', Encode \<lparr>e_key = [0x6B, 0x31], e_value = [0x76, 0x31]\<rparr>)]),
          None)
   \<and> writeEntry
        (\<lparr>segmentLimit = 10,
          currentSegment = Some \<lparr>fname = ''segment-1'', fclosed = True\<rparr>,
          currentSegmentId = 1, currentOffset = 0, index = Map.empty,
          closeCh = False, wg = 1\<rparr>,
         [(''segment-1'', [])]) [0x6B, 0x31] [0x76, 0x31]
       = ((\<lparr>segmentLimit = 10,
            currentSegment = Some \<lparr>fname = ''segment-1'', fclosed = True\<rparr>,
            currentSegmentId = 1, currentOffset = 0, index = Map.empty,
            closeCh = False, wg = 1\<rparr>,
           [(''segment-1'', [])]),
          Some ErrClosed)"
proof -
  define DB where "DB = \<lparr>segmentLimit = 10,
          currentSegment = Some \<lparr>fname = ''segment-1'', fclosed = False\<rparr>,
          currentSegmentId = 1, currentOffset = 0, index = (Map.empty :: hashIndex),
          closeCh = False, wg = 1\<rparr>"
  define DC where "DC = \<lparr>segmentLimit = 10,
          currentSegment = Some \<lparr>fname = ''segment-1'', fclosed = True\<rparr>,
          currentSegmentId = 1, currentOffset = 0, index = (Map.empty :: hashIndex),
          closeCh = False, wg = 1\<rparr>"
  have r: "writeEntry (DB, [(''segment-1'', [])]) [0x6B, 0x31] [0x76, 0x31]
       = ((\<lparr>segmentLimit = 10,
            currentSegment = Some \<lparr>fname = ''segment-2'', fclosed = False\<rparr>,
            currentSegmentId = 2, currentOffset = 36,
            index = [[0x6B, 0x31] \<mapsto> \<lparr>segmentId = 2, offset = 0\<rparr>],
            closeCh = False, wg = 1\<rparr>,
           [(''segment-1'', []),
            (''segment-2'', Encode \<lparr>e_key = [0x6B, 0x31], e_value = [0x76, 0x31]\<rparr>)]),
          None)"
    using writeEntry_rotates [of DB "[0x6B, 0x31]" "[0x76, 0x31]" "[(''segment-1'', [])]"]
    by (simp add: DB_def length_Encode segmentFilename_2 OpenFile_create_def)
  have c: "writeEntry (DC, [(''segment-1'', [])]) [0x6B, 0x31] [0x76, 0x31]
       = ((DC, [(''segment-1'', [])]), Some ErrClosed)"
    using writeEntry_rotates [of DC "[0x6B, 0x31]" "[0x76, 0x31]" "[(''segment-1'', [])]"]
    by (simp add: DC_def length_Encode)
  show ?thesis
    using r c unfolding DB_def DC_def
    by (simp add: OpenWithLimit_empty length_Encode)
qed

lemma segmentFilename_max:
  "segmentFilename 9223372036854775807 = ''segment-9223372036854775807''"
  by (simp add: segmentFilename_def outFileNamePrefix_def show_int_def show_nat.simps)

lemma segmentFilename_min:
  "segmentFilename (- 9223372036854775808) = ''segment--9223372036854775808''"
  by (simp add: segmentFilename_def outFileNamePrefix_def show_int_def show_nat.simps)

lemma recoverSegment_empty_file:
  "map_of fs (segmentFilename sid) = Some [] \<Longrightarrow> recoverSegment fs idx sid = Inr idx"
  by (simp add: recoverSegment_def DecodeFromReader_short recover_loop.simps [of sid "NewReader []"])

text \<open>
  The segment id is a 64-bit \<^verbatim>\<open>int\<close>, and \<^verbatim>\<open>currentSegmentId++\<close> wraps. A directory that
  holds the empty file \<^verbatim>\<open>segment-9223372036854775807\<close> opens with that id as the current
  one; the rotation that follows creates \<^verbatim>\<open>segment--9223372036854775808\<close> with the id
  \<^verbatim>\<open>-2^63\<close>, which is not the previous id plus 1.
\<close>

theorem segment_id_wraps:
  "OpenWithLimit [(''segment-9223372036854775807'', [])] 10 =
     Inr (\<lparr>segmentLimit = 10,
           currentSegment = Some \<lparr>fname = ''segment-9223372036854775807'', fclosed = False\<rparr>,
           currentSegmentId = 9223372036854775807, currentOffset = 0, index = Map.empty,
           closeCh = False, wg = 1\<rparr>,
          [(''segment-9223372036854775807'', [])])
   \<and> writeEntry
        (\<lparr>segmentLimit = 10,
          currentSegment = Some \<lparr>fname = ''segment-9223372036854775807'', fclosed = False\<rparr>,
          currentSegmentId = 9223372036854775807, currentOffset = 0, index = Map.empty,
          closeCh = False, wg = 1\<rparr>,
         [(''segment-9223372036854775807'', [])]) [0x6B, 0x31] [0x76, 0x31]
       = ((\<lparr>segmentLimit = 10,
            currentSegment =
              Some \<lparr>fname = ''segment--9223372036854775808'', fclosed = False\<rparr>,
            currentSegmentId = - 9223372036854775808, currentOffset = 36,
            index = [[0x6B, 0x31] \<mapsto> \<lparr>segmentId = - 9223372036854775808, offset = 0\<rparr>],
            closeCh = False, wg = 1\<rparr>,
           [(''segment-9223372036854775807'', []),
            (''segment--9223372036854775808'',
             Encode \<lparr>e_key = [0x6B, 0x31], e_value = [0x76, 0x31]\<rparr>)]),
          None)
   \<and> - 9223372036854775808 \<noteq> (9223372036854775807 + 1 :: int)"
proof -
  define DB where "DB = \<lparr>segmentLimit = 10,
          currentSegment = Some \<lparr>fname = ''segment-9223372036854775807'', fclosed = False\<rparr>,
          currentSegmentId = 9223372036854775807, currentOffset = 0,
          index = (Map.empty :: hashIndex), closeCh = False, wg = 1\<rparr>"
  have ids: "segmentIds_of (ReadDir [(''segment-9223372036854775807'', [])])
             = [9223372036854775807]"
    by (simp add: ReadDir_def segmentIds_of_def List.map_filter_simps HasPrefix_def
        TrimPrefix_def outFileNamePrefix_def Atoi_def is_digit_def digit_val_def)
  have o: "OpenWithLimit [(''segment-9223372036854775807'', [])] 10
           = Inr (DB, [(''segment-9223372036854775807'', [])])"
    by (simp add: OpenWithLimit_def loadSegments_def ids recoverSegment_empty_file
        segmentFilename_max OpenFile_append_def DB_def)
  have w: "int64 9223372036854775808 = - 9223372036854775808"
    by (simp add: int64_def)
  have n: "''segment--9223372036854775808'' \<noteq> ''segment-9223372036854775807''"
    by simp
  have r: "writeEntry (DB, [(''segment-9223372036854775807'', [])]) [0x6B, 0x31] [0x76, 0x31]
       = ((\<lparr>segmentLimit = 10,
            currentSegment =
              Some \<lparr>fname = ''segment--9223372036854775808'', fclosed = False\<rparr>,
            currentSegmentId = - 9223372036854775808, currentOffset = 36,
            index = [[0x6B, 0x31] \<mapsto> \<lparr>segmentId = - 9223372036854775808, offset = 0\<rparr>],
            closeCh = False, wg = 1\<rparr>,
           [(''segment-9223372036854775807'', []),
            (''segment--9223372036854775808'',
             Encode \<lparr>e_key = [0x6B, 0x31], e_value = [0x76, 0x31]\<rparr>)]),
          None)"
    using writeEntry_rotate_int64 [of DB
        "\<lparr>fname = ''segment-9223372036854775807'', fclosed = False\<rparr>"
        "[0x6B, 0x31]" "[0x76, 0x31]" "[(''segment-9223372036854775807'', [])]"]
    by (simp add: DB_def length_Encode w segmentFilename_min OpenFile_create_def n)
  show ?thesis
    using o r unfolding DB_def by simp
qed

text \<open>
  Claim C2, amended. On an engine that has not been closed, \<^verbatim>\<open>Close\<close> closes
  \<^verbatim>\<open>closeCh\<close>, which stops the writer, waits until the writer loop has left (the wait
  group is back at 0), then closes the handle of the current segment and returns its
  result, no error. A second \<^verbatim>\<open>Close\<close> is not a no-op: it panics at
  \<^verbatim>\<open>close(db.closeCh)\<close>, the close of a closed channel, and changes nothing.
\<close>

theorem Close_then_second_Close_panics:
  assumes "\<not> closeCh db" and "currentSegment db = Some h" and "\<not> fclosed h"
  shows "Close db = (db\<lparr>closeCh := True, wg := 0,
                         currentSegment := Some (h\<lparr>fclosed := True\<rparr>)\<rparr>, None)
         \<and> Close (fst (Close db)) = (fst (Close db), Some PanicCloseOfClosedChannel)"
  using assms by (simp add: Close_def File_Close_def Let_def)

text \<open>
  The first close of the engine just opened on an empty directory.
\<close>

theorem Close_then_second_Close_panics_witness:
  "Close \<lparr>segmentLimit = 10,
          currentSegment = Some \<lparr>fname = ''segment-1'', fclosed = False\<rparr>,
          currentSegmentId = 1, currentOffset = 0, index = Map.empty,
          closeCh = False, wg = 1\<rparr>
     = (\<lparr>segmentLimit = 10,
          currentSegment = Some \<lparr>fname = ''segment-1'', fclosed = True\<rparr>,
          currentSegmentId = 1, currentOffset = 0, index = Map.empty,
          closeCh = True, wg = 0\<rparr>, None)"
  using Close_then_second_Close_panics [of
      "\<lparr>segmentLimit = 10,
          currentSegment = Some \<lparr>fname = ''segment-1'', fclosed = False\<rparr>,
          currentSegmentId = 1, currentOffset = 0, index = Map.empty,
          closeCh = False, wg = 1\<rparr>" "\<lparr>fname = ''segment-1'', fclosed = False\<rparr>"]
  by simp

text \<open>
  Claim C2 as stated fails: on the engine opened on an empty directory the first
  \<^verbatim>\<open>Close\<close> returns no error and the second one panics.
\<close>

theorem second_Close_panics:
  "OpenWithLimit [] 10 =
     Inr (\<lparr>segmentLimit = 10,
           currentSegment = Some \<lparr>fname = ''segment-1'', fclosed = False\<rparr>,
           currentSegmentId = 1, currentOffset = 0, index = Map.empty,
           closeCh = False, wg = 1\<rparr>,
          [(''segment-1'', [])])
   \<and> snd (Close \<lparr>segmentLimit = 10,
           currentSegment = Some \<lparr>fname = ''segment-1'', fclosed = False\<rparr>,
           currentSegmentId = 1, currentOffset = 0, index = Map.empty,
           closeCh = False, wg = 1\<rparr>) = None
   \<and> snd (Close (fst (Close \<lparr>segmentLimit = 10,
           currentSegment = Some \<lparr>fname = ''segment-1'', fclosed = False\<rparr>,
           currentSegmentId = 1, currentOffset = 0, index = Map.empty,
           closeCh = False, wg = 1\<rparr>))) = Some PanicCloseOfClosedChannel
   \<and> is_panic PanicCloseOfClosedChannel"
  by (simp add: OpenWithLimit_empty Close_def File_Close_def Let_def)

section \<open>The two engines under sequential use\<close>

lemma Decode_error_cases:
  "Decode input = Inl e \<Longrightarrow> e = PanicOutOfRange \<or> (\<exists>k. e = ErrHashMismatch k)"
  by (auto simp: Decode_fields Let_def split: if_splits)

lemma DecodeFromReader_fresh_errors:
  assumes "DecodeFromReader (NewReader s) = (b, n, Inl e)"
  shows "e = EOF \<or> e = PanicOutOfRange \<or> (\<exists>k. e = ErrHashMismatch k)"
proof (cases "length s < 4")
  case True
  then show ?thesis
    using assms by (simp add: DecodeFromReader_short)
next
  case False
  then have "4 \<le> length s"
    by simp
  then show ?thesis
    using assms Decode_error_cases by (auto simp: DecodeFromReader_fresh)
qed

lemma DecodeFromReader_fresh_not_ErrCorrupted:
  assumes "DecodeFromReader (NewReader s) = (b, n, Inl e)"
  shows "\<not> errors_Is e ErrCorrupted"
  using DecodeFromReader_fresh_errors [OF assms] by auto

lemma seq_recover_loop_eq: "seq_recover_loop sid reader off idx = recover_loop sid reader off idx"
proof (induction sid reader off idx rule: recover_loop.induct)
  case (1 sid reader off idx)
  obtain reader1 n r where d: "DecodeFromReader reader = (reader1, n, r)"
    by (cases "DecodeFromReader reader") auto
  show ?case
  proof (cases r)
    case (Inl e)
    then show ?thesis
      using d by (subst seq_recover_loop.simps, subst recover_loop.simps) simp
  next
    case (Inr ent)
    have "seq_recover_loop sid reader1 (off + int n)
            (idx(e_key ent \<mapsto> \<lparr>segmentId = sid, offset = off\<rparr>))
          = recover_loop sid reader1 (off + int n)
            (idx(e_key ent \<mapsto> \<lparr>segmentId = sid, offset = off\<rparr>))"
      using d Inr by (intro 1) auto
    then show ?thesis
      using d Inr by (subst seq_recover_loop.simps, subst recover_loop.simps) simp
  qed
qed

lemma seq_recoverSegment_eq: "seq_recoverSegment fs idx sid = recoverSegment fs idx sid"
  by (simp add: seq_recoverSegment_def recoverSegment_def seq_recover_loop_eq split: option.splits)

lemma seq_recover_all_eq: "seq_recover_all fs ids maxId idx = recover_all fs ids maxId idx"
  by (induction ids arbitrary: maxId idx) (simp_all add: seq_recoverSegment_eq split: sum.splits)

lemma OpenWithLimit_corresponds:
  "(case OpenWithLimit fs limit of
      Inl e \<Rightarrow> seq_OpenWithLimit fs limit = Inl e
    | Inr st \<Rightarrow> (\<exists>sst. seq_OpenWithLimit fs limit = Inr sst \<and> corresponds st sst))"
  by (auto simp: OpenWithLimit_def seq_OpenWithLimit_def loadSegments_def seq_loadSegments_def
      createNewSegment_def seq_createNewSegment_def seq_recover_all_eq corresponds_def
      view_of_def seq_view_of_def Let_def
      split: sum.splits prod.splits)

lemma Get_corresponds:
  assumes "corresponds st sst"
  shows "Get st k = seq_Get sst k"
proof -
  obtain db fs sdb where st: "st = (db, fs)" "sst = (sdb, fs)"
    using assms by (cases st; cases sst) (auto simp: corresponds_def)
  have i: "index db = seq_index sdb"
    using assms by (simp add: corresponds_def st view_of_def seq_view_of_def)
  show ?thesis
    unfolding st Get_def seq_Get_def
    by (auto simp: i split: option.splits prod.splits sum.splits
        dest: DecodeFromReader_fresh_not_ErrCorrupted)
qed

lemma Put_corresponds:
  assumes "corresponds st sst"
  shows "\<exists>st1 r. Put st k v = Some (st1, r) \<and> corresponds st1 (fst (seq_Put sst k v))
                 \<and> snd (seq_Put sst k v) = r"
proof -
  obtain db fs sdb where st: "st = (db, fs)" "sst = (sdb, fs)"
    using assms by (cases st; cases sst) (auto simp: corresponds_def)
  have v: "segmentLimit db = seq_segmentLimit sdb" "currentSegment db = seq_currentSegment sdb"
    "currentSegmentId db = seq_currentSegmentId sdb" "currentOffset db = seq_currentOffset sdb"
    "index db = seq_index sdb" "\<not> closeCh db" "wg db \<noteq> 0"
    using assms by (simp_all add: corresponds_def st view_of_def seq_view_of_def)
  show ?thesis
    unfolding st Put_def writeEntry_def seq_Put_def
    using v
    by (auto simp: corresponds_def view_of_def seq_view_of_def createNewSegment_def
        seq_createNewSegment_def Let_def split: prod.splits option.splits)
qed

lemma run_ops_corresponds:
  assumes "corresponds st sst"
  shows "\<exists>os st1. run_ops st ops = Some (os, st1) \<and> fst (seq_run_ops sst ops) = os
                  \<and> corresponds st1 (snd (seq_run_ops sst ops))"
  using assms
proof (induction ops arbitrary: st sst)
  case Nil
  then show ?case
    by simp
next
  case (Cons a ops)
  show ?case
  proof (cases a)
    case (OpPut k v)
    obtain st1 r where p: "Put st k v = Some (st1, r)"
      "corresponds st1 (fst (seq_Put sst k v))" "snd (seq_Put sst k v) = r"
      using Put_corresponds [OF Cons.prems] by blast
    obtain os st2 where r: "run_ops st1 ops = Some (os, st2)"
      "fst (seq_run_ops (fst (seq_Put sst k v)) ops) = os"
      "corresponds st2 (snd (seq_run_ops (fst (seq_Put sst k v)) ops))"
      using Cons.IH [OF p(2)] by blast
    show ?thesis
      using p r by (auto simp add: OpPut split: prod.splits)
  next
    case (OpGet k)
    obtain os st2 where r: "run_ops st ops = Some (os, st2)"
      "fst (seq_run_ops sst ops) = os" "corresponds st2 (snd (seq_run_ops sst ops))"
      using Cons.IH [OF Cons.prems] by blast
    show ?thesis
      using r Get_corresponds [OF Cons.prems] by (auto simp add: OpGet split: prod.splits)
  qed
qed

text \<open>
  Claim C10. The engine with the write serializer and the plain sequential engine are
  observationally equivalent under sequential use: opened on the same directory contents
  with the same segment limit, and given the same calls of put and get one at a time,
  both fail to open with the same error, or both return the same results call by call
  and leave the same directory of segment files, the same index and the same current
  segment (handle, id and offset). In particular no put of the first engine blocks.
\<close>

theorem engines_equivalent_sequentially:
  "session fs limit ops = seq_session fs limit ops"
proof (cases "OpenWithLimit fs limit")
  case (Inl e)
  then show ?thesis
    using OpenWithLimit_corresponds [of fs limit] by (simp add: session_def seq_session_def)
next
  case (Inr st)
  then obtain sst where s: "seq_OpenWithLimit fs limit = Inr sst" "corresponds st sst"
    using OpenWithLimit_corresponds [of fs limit] by auto
  obtain os st1 where r: "run_ops st ops = Some (os, st1)" "fst (seq_run_ops sst ops) = os"
    "corresponds st1 (snd (seq_run_ops sst ops))"
    using run_ops_corresponds [OF s(2)] by blast
  show ?thesis
    using Inr s r
    by (auto simp: session_def seq_session_def corresponds_def split: prod.splits)
qed

section \<open>Reading back what was written\<close>

lemma length_field_Encode:
  assumes "length (Encode e) < 2 ^ 32"
  shows "length_field (Encode e @ rest) 0 = length (Encode e)"
proof -
  have u: "unat (word_of_nat (length (e_key e) + length (e_value e) + 32) :: u32)
           = length (e_key e) + length (e_value e) + 32"
    using assms by (intro unat_word_of_nat_u32) (simp add: length_Encode)
  have "Uint32 (drop 0 (Encode e @ rest))
        = Inr (word_of_nat (length (e_key e) + length (e_value e) + 32))"
    unfolding Encode_layout by (simp only: drop_0 append_assoc Uint32_le32)
  then show ?thesis
    unfolding length_field_def length_Encode by (simp only: sum.case u)
qed

lemma DecodeFromReader_Encode:
  assumes "length (Encode e) \<le> bufSize"
  shows "DecodeFromReader (NewReader (Encode e @ rest)) =
           (\<lparr>rbuf = drop (length (Encode e)) (take bufSize (Encode e @ rest)),
             rsrc = drop bufSize (Encode e @ rest), rerr = None\<rparr>,
            length (Encode e), Inr e)"
proof -
  have lt: "length (Encode e) < 2 ^ 32"
    using assms by (simp add: bufSize_def)
  have kv: "length (e_key e) < 2 ^ 32" "length (e_value e) < 2 ^ 32"
    using lt by (simp_all add: length_Encode)
  have f: "length_field (Encode e @ rest) 0 = length (Encode e)"
    by (rule length_field_Encode [OF lt])
  have ge: "4 \<le> length (Encode e @ rest)"
    by (simp add: length_Encode)
  have m: "min (length (Encode e)) (min (length (Encode e @ rest)) bufSize) = length (Encode e)"
    using assms by simp
  show ?thesis
    unfolding DecodeFromReader_fresh [OF ge] f m
    by (simp add: Decode_Encode_roundtrip [OF kv])
qed

lemma Get_reads_record:
  assumes "index db k = Some ref" and "map_of fs (segmentFilename (segmentId ref)) = Some content"
    and "0 \<le> offset ref" and "drop (nat (offset ref)) content = Encode e @ rest"
    and "length (Encode e) \<le> bufSize"
  shows "Get (db, fs) k = Inr (e_value e)"
  using assms by (simp add: Get_def DecodeFromReader_Encode)

lemma recoverSegment_single:
  assumes "map_of fs (segmentFilename sid) = Some (Encode e)" and "length (Encode e) \<le> bufSize"
  shows "recoverSegment fs idx sid = Inr (idx(e_key e \<mapsto> \<lparr>segmentId = sid, offset = 0\<rparr>))"
proof -
  have 1: "DecodeFromReader (NewReader (Encode e)) =
             (NewReader [], length (Encode e), Inr e)"
    using DecodeFromReader_Encode [OF assms(2), of "[]"] assms(2)
    by (simp add: NewReader_def)
  have 2: "DecodeFromReader (NewReader []) = (\<lparr>rbuf = [], rsrc = [], rerr = None\<rparr>, 0, Inl EOF)"
    by (simp add: DecodeFromReader_short)
  have "recover_loop sid (NewReader (Encode e)) 0 idx =
        recover_loop sid (NewReader []) (0 + int (length (Encode e)))
          (idx(e_key e \<mapsto> \<lparr>segmentId = sid, offset = 0\<rparr>))"
    by (subst recover_loop.simps) (simp add: 1)
  also have "\<dots> = Inr (idx(e_key e \<mapsto> \<lparr>segmentId = sid, offset = 0\<rparr>))"
    by (subst recover_loop.simps) (simp add: 2)
  finally show ?thesis
    using assms(1) by (simp add: recoverSegment_def)
qed

lemma Decode_short_read:
  "Decode (take 4096 (Encode \<lparr>e_key = [0x6B], e_value = replicate 4096 0x76\<rparr>) @ replicate 33 0)
   = (if replicate 20 0 = sha1_Sum (replicate 4083 0x76 @ replicate 13 0)
      then Inr \<lparr>e_key = [0x6B], e_value = replicate 4083 0x76 @ replicate 13 0\<rparr>
      else Inl (ErrHashMismatch [0x6B]))"
proof -
  have r: "replicate 33 (0 :: byte) = replicate 13 0 @ replicate 20 0"
    by (simp add: replicate_add [symmetric])
  have "take 4096 (Encode \<lparr>e_key = [0x6B], e_value = replicate 4096 0x76\<rparr>) @ replicate 33 0
        = le32 4129 @ le32 1 @ [0x6B] @ le32 4096 @ (replicate 4083 0x76 @ replicate 13 0)
          @ replicate 20 0"
    unfolding r by (simp add: Encode_layout length_le32)
  moreover have "Decode (le32 4129 @ le32 1 @ [0x6B] @ le32 4096
                         @ (replicate 4083 0x76 @ replicate 13 0) @ replicate 20 0)
     = (if replicate 20 0 = sha1_Sum (replicate 4083 0x76 @ replicate 13 0)
        then Inr \<lparr>e_key = [0x6B], e_value = replicate 4083 0x76 @ replicate 13 0\<rparr>
        else Inl (ErrHashMismatch [0x6B]))"
    by (rule Decode_record) (simp_all add: length_le32)
  ultimately show ?thesis
    by simp
qed

lemma DecodeFromReader_large:
  "snd (DecodeFromReader (NewReader (Encode \<lparr>e_key = [0x6B], e_value = replicate 4096 0x76\<rparr>)))
   = (4096,
      if replicate 20 0 = sha1_Sum (replicate 4083 0x76 @ replicate 13 0)
      then Inr \<lparr>e_key = [0x6B], e_value = replicate 4083 0x76 @ replicate 13 0\<rparr>
      else Inl (ErrHashMismatch [0x6B]))"
proof -
  have l: "length (Encode \<lparr>e_key = [0x6B], e_value = replicate 4096 0x76\<rparr>) = 4129"
    by (simp add: length_Encode)
  have f: "length_field (Encode \<lparr>e_key = [0x6B], e_value = replicate 4096 0x76\<rparr>) 0 = 4129"
    using length_field_Encode [of "\<lparr>e_key = [0x6B], e_value = replicate 4096 0x76\<rparr>" "[]"]
    by (simp add: l)
  show ?thesis
    by (simp add: DecodeFromReader_fresh l f bufSize_def Decode_short_read)
qed

text \<open>
  Claim C7 at a failing input. On an empty directory with the default limit,
  \<^verbatim>\<open>put("k", "v1")\<close> and then \<^verbatim>\<open>put("k", v2)\<close> for a value \<open>v2\<close> of 4096 bytes both
  succeed, and the record of \<open>v2\<close> is on disk whole, 4129 bytes at offset 35. But
  \<^verbatim>\<open>get("k")\<close> does not return \<open>v2\<close>: \<^verbatim>\<open>DecodeFromReader\<close> takes the 4096 bytes that
  the reader has buffered as the record, the rest of the buffer stays zero, and
  \<^verbatim>\<open>Decode\<close> compares the SHA-1 of a value that ends in 13 zero bytes with a checksum
  of 20 zero bytes. The result is the hash-mismatch error (or, were that SHA-1 all
  zero, the wrong value).
\<close>

theorem Get_after_large_Put:
  "session [] defaultMaxSegmentSize
     [OpPut [0x6B] [0x76, 0x31], OpPut [0x6B] (replicate 4096 0x76), OpGet [0x6B]]
   = Inr (Some
       ([PutResult None, PutResult None,
         GetResult (if replicate 20 0 = sha1_Sum (replicate 4083 0x76 @ replicate 13 0)
                    then Inr (replicate 4083 0x76 @ replicate 13 0)
                    else Inl (ErrHashMismatch [0x6B]))],
        (defaultMaxSegmentSize, Some \<lparr>fname = ''segment-1'', fclosed = False\<rparr>, 1, 4164,
         [[0x6B] \<mapsto> \<lparr>segmentId = 1, offset = 35\<rparr>]),
        [(''segment-1'',
          Encode \<lparr>e_key = [0x6B], e_value = [0x76, 0x31]\<rparr>
          @ Encode \<lparr>e_key = [0x6B], e_value = replicate 4096 0x76\<rparr>)]))
   \<and> (replicate 4083 0x76 @ replicate 13 0 :: bytes) \<noteq> replicate 4096 0x76"
proof -
  define L where "L = defaultMaxSegmentSize"
  have L: "L = 10485760"
    by (simp add: L_def defaultMaxSegmentSize_def)
  define db0 where "db0 = \<lparr>segmentLimit = L,
           currentSegment = Some \<lparr>fname = ''segment-1'', fclosed = False\<rparr>,
           currentSegmentId = 1, currentOffset = 0, index = Map.empty,
           closeCh = False, wg = 1\<rparr>"
  define e1 where "e1 = \<lparr>e_key = [0x6B :: byte], e_value = [0x76 :: byte, 0x31]\<rparr>"
  define e2 where "e2 = \<lparr>e_key = [0x6B :: byte], e_value = replicate 4096 (0x76 :: byte)\<rparr>"
  define db1 where "db1 = db0\<lparr>index := [[0x6B] \<mapsto> \<lparr>segmentId = 1, offset = 0\<rparr>],
                              currentOffset := 35\<rparr>"
  define db2 where "db2 = db0\<lparr>index := [[0x6B] \<mapsto> \<lparr>segmentId = 1, offset = 35\<rparr>],
                              currentOffset := 4164\<rparr>"
  have l1: "length (Encode e1) = 35" and l2: "length (Encode e2) = 4129"
    by (simp_all add: e1_def e2_def length_Encode)
  have o: "OpenWithLimit [] L = Inr (db0, [(''segment-1'', [])])"
    by (simp add: OpenWithLimit_empty db0_def)
  have w1: "writeEntry (db0, [(''segment-1'', [])]) [0x6B] [0x76, 0x31]
            = ((db1, [(''segment-1'', Encode e1)]), None)"
    using writeEntry_append_eq [of db0 "\<lparr>fname = ''segment-1'', fclosed = False\<rparr>"
        "[0x6B]" "[0x76, 0x31]" "[(''segment-1'', [])]"] l1
    by (simp add: db0_def db1_def e1_def L)
  have w2: "writeEntry (db1, [(''segment-1'', Encode e1)]) [0x6B] (replicate 4096 0x76)
            = ((db2, [(''segment-1'', Encode e1 @ Encode e2)]), None)"
    using writeEntry_append_eq [of db1 "\<lparr>fname = ''segment-1'', fclosed = False\<rparr>"
        "[0x6B]" "replicate 4096 0x76" "[(''segment-1'', Encode e1)]"] l1 l2
    by (simp add: db0_def db1_def db2_def e1_def e2_def L)
  have g: "Get (db2, [(''segment-1'', Encode e1 @ Encode e2)]) [0x6B]
           = (if replicate 20 0 = sha1_Sum (replicate 4083 0x76 @ replicate 13 0)
              then Inr (replicate 4083 0x76 @ replicate 13 0)
              else Inl (ErrHashMismatch [0x6B]))"
    using DecodeFromReader_large l1
    by (cases "DecodeFromReader (NewReader (Encode e2))")
       (auto simp add: Get_def db2_def db0_def segmentFilename_1 e2_def [symmetric])
  have ne: "(replicate 4083 0x76 @ replicate 13 0 :: bytes) \<noteq> replicate 4096 0x76"
  proof
    assume "(replicate 4083 0x76 @ replicate 13 0 :: bytes) = replicate 4096 0x76"
    then have "(replicate 4083 0x76 @ replicate 13 0 :: bytes) ! 4095 = replicate 4096 0x76 ! 4095"
      by simp
    then show False
      by (simp add: nth_append)
  qed
  have "session [] L [OpPut [0x6B] [0x76, 0x31], OpPut [0x6B] (replicate 4096 0x76), OpGet [0x6B]]
        = Inr (Some
           ([PutResult None, PutResult None,
             GetResult (Get (db2, [(''segment-1'', Encode e1 @ Encode e2)]) [0x6B])],
            view_of db2, [(''segment-1'', Encode e1 @ Encode e2)]))"
    using w1 w2 by (simp add: session_def o Put_def db0_def db1_def)
  then show ?thesis
    unfolding g using ne
    by (simp add: L_def [symmetric] view_of_def db2_def db0_def e1_def e2_def)
qed

section \<open>Recovery after close and open\<close>

lemma update_new_file:
  "map_of fs name = None \<Longrightarrow> AList.update name d (fs @ [(name, c)]) = fs @ [(name, d)]"
  by (induction fs) (auto split: if_splits)

lemma writeEntry_rotate_new:
  assumes "currentSegment db = Some h" and "\<not> fclosed h"
    and "segmentLimit db < currentOffset db + int (length (Encode \<lparr>e_key = k, e_value = v\<rparr>))"
    and "- (2 ^ 63) \<le> currentSegmentId db" and "currentSegmentId db < 2 ^ 63 - 1"
    and "map_of fs (segmentFilename (currentSegmentId db + 1)) = None"
  shows "writeEntry (db, fs) k v =
    ((db\<lparr>currentSegmentId := currentSegmentId db + 1,
         currentSegment := Some \<lparr>fname = segmentFilename (currentSegmentId db + 1), fclosed = False\<rparr>,
         index := (index db)(k \<mapsto> \<lparr>segmentId = currentSegmentId db + 1, offset = 0\<rparr>),
         currentOffset := int (length (Encode \<lparr>e_key = k, e_value = v\<rparr>))\<rparr>,
      fs @ [(segmentFilename (currentSegmentId db + 1), Encode \<lparr>e_key = k, e_value = v\<rparr>)]),
     None)"
  using assms(6)
  by (simp add: writeEntry_rotate_eq [OF assms(1-5)] OpenFile_create_def update_new_file)

lemma segmentFilename_small:

  "segmentFilename 1 = ''segment-1''"
  "segmentFilename 2 = ''segment-2''"
  "segmentFilename 3 = ''segment-3''"
  "segmentFilename 4 = ''segment-4''"
  "segmentFilename 5 = ''segment-5''"
  "segmentFilename 6 = ''segment-6''"
  "segmentFilename 7 = ''segment-7''"
  "segmentFilename 8 = ''segment-8''"
  "segmentFilename 9 = ''segment-9''"
  "segmentFilename 10 = ''segment-10''"

  by (simp_all add: segmentFilename_def outFileNamePrefix_def show_int_def show_nat.simps)

text \<open>
  Claim C1 at a failing input. With the limit 40 every record of the key "k" and a
  one-byte value takes a segment of its own; ten puts with the values 1 to 10 leave the
  segments 1 to 10, and \<^verbatim>\<open>get\<close> returns 10. After close and open on the same directory
  \<^verbatim>\<open>os.ReadDir\<close> lists segment-10 between segment-1 and segment-2; the segments are
  replayed in that order, the index ends at segment 9, and \<^verbatim>\<open>get\<close> returns 9.
\<close>

theorem recovery_replays_in_name_order:
  "\<exists>st0 st1 st2.
     OpenWithLimit [] 40 = Inr st0
     \<and> run_ops st0 [OpPut [0x6B] [1], OpPut [0x6B] [2], OpPut [0x6B] [3], OpPut [0x6B] [4], OpPut [0x6B] [5], OpPut [0x6B] [6], OpPut [0x6B] [7], OpPut [0x6B] [8], OpPut [0x6B] [9], OpPut [0x6B] [10]]
         = Some (replicate 10 (PutResult None), st1)
     \<and> map fst (snd st1) = [''segment-1'', ''segment-2'', ''segment-3'', ''segment-4'', ''segment-5'', ''segment-6'', ''segment-7'', ''segment-8'', ''segment-9'', ''segment-10'']
     \<and> Get st1 [0x6B] = Inr [10]
     \<and> ReadDir (snd st1) = [''segment-1'', ''segment-10'', ''segment-2'', ''segment-3'', ''segment-4'', ''segment-5'', ''segment-6'', ''segment-7'', ''segment-8'', ''segment-9'']
     \<and> reopen st1 = Inr st2
     \<and> snd st2 = snd st1
     \<and> currentSegmentId (fst st2) = 10
     \<and> index (fst st2) [0x6B] = Some \<lparr>segmentId = 9, offset = 0\<rparr>
     \<and> Get st2 [0x6B] = Inr [9]"
proof -
  have len: "length (Encode \<lparr>e_key = [0x6B], e_value = [b]\<rparr>) = 34" for b
    by (simp add: length_Encode)
  define db0 where "db0 = \<lparr>segmentLimit = 40, currentSegment = Some \<lparr>fname = ''segment-1'', fclosed = False\<rparr>, currentSegmentId = 1, currentOffset = 0, index = (Map.empty :: hashIndex), closeCh = False, wg = 1\<rparr>"
  define db1 where "db1 = \<lparr>segmentLimit = 40, currentSegment = Some \<lparr>fname = ''segment-1'', fclosed = False\<rparr>, currentSegmentId = 1, currentOffset = 34, index = [[0x6B] \<mapsto> \<lparr>segmentId = 1, offset = 0\<rparr>], closeCh = False, wg = 1\<rparr>"
  define fs1 where "fs1 = [(''segment-1'', Encode \<lparr>e_key = [0x6B], e_value = [1]\<rparr>)]"
  define db2 where "db2 = \<lparr>segmentLimit = 40, currentSegment = Some \<lparr>fname = ''segment-2'', fclosed = False\<rparr>, currentSegmentId = 2, currentOffset = 34, index = [[0x6B] \<mapsto> \<lparr>segmentId = 2, offset = 0\<rparr>], closeCh = False, wg = 1\<rparr>"
  define fs2 where "fs2 = [(''segment-1'', Encode \<lparr>e_key = [0x6B], e_value = [1]\<rparr>), (''segment-2'', Encode \<lparr>e_key = [0x6B], e_value = [2]\<rparr>)]"
  define db3 where "db3 = \<lparr>segmentLimit = 40, currentSegment = Some \<lparr>fname = ''segment-3'', fclosed = False\<rparr>, currentSegmentId = 3, currentOffset = 34, index = [[0x6B] \<mapsto> \<lparr>segmentId = 3, offset = 0\<rparr>], closeCh = False, wg = 1\<rparr>"
  define fs3 where "fs3 = [(''segment-1'', Encode \<lparr>e_key = [0x6B], e_value = [1]\<rparr>), (''segment-2'', Encode \<lparr>e_key = [0x6B], e_value = [2]\<rparr>), (''segment-3'', Encode \<lparr>e_key = [0x6B], e_value = [3]\<rparr>)]"
  define db4 where "db4 = \<lparr>segmentLimit = 40, currentSegment = Some \<lparr>fname = ''segment-4'', fclosed = False\<rparr>, currentSegmentId = 4, currentOffset = 34, index = [[0x6B] \<mapsto> \<lparr>segmentId = 4, offset = 0\<rparr>], closeCh = False, wg = 1\<rparr>"
  define fs4 where "fs4 = [(''segment-1'', Encode \<lparr>e_key = [0x6B], e_value = [1]\<rparr>), (''segment-2'', Encode \<lparr>e_key = [0x6B], e_value = [2]\<rparr>), (''segment-3'', Encode \<lparr>e_key = [0x6B], e_value = [3]\<rparr>), (''segment-4'', Encode \<lparr>e_key = [0x6B], e_value = [4]\<rparr>)]"
  define db5 where "db5 = \<lparr>segmentLimit = 40, currentSegment = Some \<lparr>fname = ''segment-5'', fclosed = False\<rparr>, currentSegmentId = 5, currentOffset = 34, index = [[0x6B] \<mapsto> \<lparr>segmentId = 5, offset = 0\<rparr>], closeCh = False, wg = 1\<rparr>"
  define fs5 where "fs5 = [(''segment-1'', Encode \<lparr>e_key = [0x6B], e_value = [1]\<rparr>), (''segment-2'', Encode \<lparr>e_key = [0x6B], e_value = [2]\<rparr>), (''segment-3'', Encode \<lparr>e_key = [0x6B], e_value = [3]\<rparr>), (''segment-4'', Encode \<lparr>e_key = [0x6B], e_value = [4]\<rparr>), (''segment-5'', Encode \<lparr>e_key = [0x6B], e_value = [5]\<rparr>)]"
  define db6 where "db6 = \<lparr>segmentLimit = 40, currentSegment = Some \<lparr>fname = ''segment-6'', fclosed = False\<rparr>, currentSegmentId = 6, currentOffset = 34, index = [[0x6B] \<mapsto> \<lparr>segmentId = 6, offset = 0\<rparr>], closeCh = False, wg = 1\<rparr>"
  define fs6 where "fs6 = [(''segment-1'', Encode \<lparr>e_key = [0x6B], e_value = [1]\<rparr>), (''segment-2'', Encode \<lparr>e_key = [0x6B], e_value = [2]\<rparr>), (''segment-3'', Encode \<lparr>e_key = [0x6B], e_value = [3]\<rparr>), (''segment-4'', Encode \<lparr>e_key = [0x6B], e_value = [4]\<rparr>), (''segment-5'', Encode \<lparr>e_key = [0x6B], e_value = [5]\<rparr>), (''segment-6'', Encode \<lparr>e_key = [0x6B], e_value = [6]\<rparr>)]"
  define db7 where "db7 = \<lparr>segmentLimit = 40, currentSegment = Some \<lparr>fname = ''segment-7'', fclosed = False\<rparr>, currentSegmentId = 7, currentOffset = 34, index = [[0x6B] \<mapsto> \<lparr>segmentId = 7, offset = 0\<rparr>], closeCh = False, wg = 1\<rparr>"
  define fs7 where "fs7 = [(''segment-1'', Encode \<lparr>e_key = [0x6B], e_value = [1]\<rparr>), (''segment-2'', Encode \<lparr>e_key = [0x6B], e_value = [2]\<rparr>), (''segment-3'', Encode \<lparr>e_key = [0x6B], e_value = [3]\<rparr>), (''segment-4'', Encode \<lparr>e_key = [0x6B], e_value = [4]\<rparr>), (''segment-5'', Encode \<lparr>e_key = [0x6B], e_value = [5]\<rparr>), (''segment-6'', Encode \<lparr>e_key = [0x6B], e_value = [6]\<rparr>), (''segment-7'', Encode \<lparr>e_key = [0x6B], e_value = [7]\<rparr>)]"
  define db8 where "db8 = \<lparr>segmentLimit = 40, currentSegment = Some \<lparr>fname = ''segment-8'', fclosed = False\<rparr>, currentSegmentId = 8, currentOffset = 34, index = [[0x6B] \<mapsto> \<lparr>segmentId = 8, offset = 0\<rparr>], closeCh = False, wg = 1\<rparr>"
  define fs8 where "fs8 = [(''segment-1'', Encode \<lparr>e_key = [0x6B], e_value = [1]\<rparr>), (''segment-2'', Encode \<lparr>e_key = [0x6B], e_value = [2]\<rparr>), (''segment-3'', Encode \<lparr>e_key = [0x6B], e_value = [3]\<rparr>), (''segment-4'', Encode \<lparr>e_key = [0x6B], e_value = [4]\<rparr>), (''segment-5'', Encode \<lparr>e_key = [0x6B], e_value = [5]\<rparr>), (''segment-6'', Encode \<lparr>e_key = [0x6B], e_value = [6]\<rparr>), (''segment-7'', Encode \<lparr>e_key = [0x6B], e_value = [7]\<rparr>), (''segment-8'', Encode \<lparr>e_key = [0x6B], e_value = [8]\<rparr>)]"
  define db9 where "db9 = \<lparr>segmentLimit = 40, currentSegment = Some \<lparr>fname = ''segment-9'', fclosed = False\<rparr>, currentSegmentId = 9, currentOffset = 34, index = [[0x6B] \<mapsto> \<lparr>segmentId = 9, offset = 0\<rparr>], closeCh = False, wg = 1\<rparr>"
  define fs9 where "fs9 = [(''segment-1'', Encode \<lparr>e_key = [0x6B], e_value = [1]\<rparr>), (''segment-2'', Encode \<lparr>e_key = [0x6B], e_value = [2]\<rparr>), (''segment-3'', Encode \<lparr>e_key = [0x6B], e_value = [3]\<rparr>), (''segment-4'', Encode \<lparr>e_key = [0x6B], e_value = [4]\<rparr>), (''segment-5'', Encode \<lparr>e_key = [0x6B], e_value = [5]\<rparr>), (''segment-6'', Encode \<lparr>e_key = [0x6B], e_value = [6]\<rparr>), (''segment-7'', Encode \<lparr>e_key = [0x6B], e_value = [7]\<rparr>), (''segment-8'', Encode \<lparr>e_key = [0x6B], e_value = [8]\<rparr>), (''segment-9'', Encode \<lparr>e_key = [0x6B], e_value = [9]\<rparr>)]"
  define db10 where "db10 = \<lparr>segmentLimit = 40, currentSegment = Some \<lparr>fname = ''segment-10'', fclosed = False\<rparr>, currentSegmentId = 10, currentOffset = 34, index = [[0x6B] \<mapsto> \<lparr>segmentId = 10, offset = 0\<rparr>], closeCh = False, wg = 1\<rparr>"
  define fs10 where "fs10 = [(''segment-1'', Encode \<lparr>e_key = [0x6B], e_value = [1]\<rparr>), (''segment-2'', Encode \<lparr>e_key = [0x6B], e_value = [2]\<rparr>), (''segment-3'', Encode \<lparr>e_key = [0x6B], e_value = [3]\<rparr>), (''segment-4'', Encode \<lparr>e_key = [0x6B], e_value = [4]\<rparr>), (''segment-5'', Encode \<lparr>e_key = [0x6B], e_value = [5]\<rparr>), (''segment-6'', Encode \<lparr>e_key = [0x6B], e_value = [6]\<rparr>), (''segment-7'', Encode \<lparr>e_key = [0x6B], e_value = [7]\<rparr>), (''segment-8'', Encode \<lparr>e_key = [0x6B], e_value = [8]\<rparr>), (''segment-9'', Encode \<lparr>e_key = [0x6B], e_value = [9]\<rparr>), (''segment-10'', Encode \<lparr>e_key = [0x6B], e_value = [10]\<rparr>)]"
  have o: "OpenWithLimit [] 40 = Inr (db0, [(''segment-1'', [])])"
    by (simp add: OpenWithLimit_empty db0_def)
  have w1: "writeEntry (db0, [(''segment-1'', [])]) [0x6B] [1] = ((db1, fs1), None)"
    using writeEntry_append_eq [of db0 "\<lparr>fname = ''segment-1'', fclosed = False\<rparr>" "[0x6B]" "[1]" "[(''segment-1'', [])]"]
    by (simp add: db0_def db1_def fs1_def len)
  have w2: "writeEntry (db1, fs1) [0x6B] [2] = ((db2, fs2), None)"
    using writeEntry_rotate_new [of db1 "\<lparr>fname = ''segment-1'', fclosed = False\<rparr>" "[0x6B]" "[2]" fs1]
    by (simp add: db1_def db2_def fs1_def fs2_def len segmentFilename_small)
  have w3: "writeEntry (db2, fs2) [0x6B] [3] = ((db3, fs3), None)"
    using writeEntry_rotate_new [of db2 "\<lparr>fname = ''segment-2'', fclosed = False\<rparr>" "[0x6B]" "[3]" fs2]
    by (simp add: db2_def db3_def fs2_def fs3_def len segmentFilename_small)
  have w4: "writeEntry (db3, fs3) [0x6B] [4] = ((db4, fs4), None)"
    using writeEntry_rotate_new [of db3 "\<lparr>fname = ''segment-3'', fclosed = False\<rparr>" "[0x6B]" "[4]" fs3]
    by (simp add: db3_def db4_def fs3_def fs4_def len segmentFilename_small)
  have w5: "writeEntry (db4, fs4) [0x6B] [5] = ((db5, fs5), None)"
    using writeEntry_rotate_new [of db4 "\<lparr>fname = ''segment-4'', fclosed = False\<rparr>" "[0x6B]" "[5]" fs4]
    by (simp add: db4_def db5_def fs4_def fs5_def len segmentFilename_small)
  have w6: "writeEntry (db5, fs5) [0x6B] [6] = ((db6, fs6), None)"
    using writeEntry_rotate_new [of db5 "\<lparr>fname = ''segment-5'', fclosed = False\<rparr>" "[0x6B]" "[6]" fs5]
    by (simp add: db5_def db6_def fs5_def fs6_def len segmentFilename_small)
  have w7: "writeEntry (db6, fs6) [0x6B] [7] = ((db7, fs7), None)"
    using writeEntry_rotate_new [of db6 "\<lparr>fname = ''segment-6'', fclosed = False\<rparr>" "[0x6B]" "[7]" fs6]
    by (simp add: db6_def db7_def fs6_def fs7_def len segmentFilename_small)
  have w8: "writeEntry (db7, fs7) [0x6B] [8] = ((db8, fs8), None)"
    using writeEntry_rotate_new [of db7 "\<lparr>fname = ''segment-7'', fclosed = False\<rparr>" "[0x6B]" "[8]" fs7]
    by (simp add: db7_def db8_def fs7_def fs8_def len segmentFilename_small)
  have w9: "writeEntry (db8, fs8) [0x6B] [9] = ((db9, fs9), None)"
    using writeEntry_rotate_new [of db8 "\<lparr>fname = ''segment-8'', fclosed = False\<rparr>" "[0x6B]" "[9]" fs8]
    by (simp add: db8_def db9_def fs8_def fs9_def len segmentFilename_small)
  have w10: "writeEntry (db9, fs9) [0x6B] [10] = ((db10, fs10), None)"
    using writeEntry_rotate_new [of db9 "\<lparr>fname = ''segment-9'', fclosed = False\<rparr>" "[0x6B]" "[10]" fs9]
    by (simp add: db9_def db10_def fs9_def fs10_def len segmentFilename_small)
  have p1: "Put (db0, [(''segment-1'', [])]) [0x6B] [1] = Some ((db1, fs1), None)"
    using w1 by (simp add: Put_def db0_def)
  have p2: "Put (db1, fs1) [0x6B] [2] = Some ((db2, fs2), None)"
    using w2 by (simp add: Put_def db1_def)
  have p3: "Put (db2, fs2) [0x6B] [3] = Some ((db3, fs3), None)"
    using w3 by (simp add: Put_def db2_def)
  have p4: "Put (db3, fs3) [0x6B] [4] = Some ((db4, fs4), None)"
    using w4 by (simp add: Put_def db3_def)
  have p5: "Put (db4, fs4) [0x6B] [5] = Some ((db5, fs5), None)"
    using w5 by (simp add: Put_def db4_def)
  have p6: "Put (db5, fs5) [0x6B] [6] = Some ((db6, fs6), None)"
    using w6 by (simp add: Put_def db5_def)
  have p7: "Put (db6, fs6) [0x6B] [7] = Some ((db7, fs7), None)"
    using w7 by (simp add: Put_def db6_def)
  have p8: "Put (db7, fs7) [0x6B] [8] = Some ((db8, fs8), None)"
    using w8 by (simp add: Put_def db7_def)
  have p9: "Put (db8, fs8) [0x6B] [9] = Some ((db9, fs9), None)"
    using w9 by (simp add: Put_def db8_def)
  have p10: "Put (db9, fs9) [0x6B] [10] = Some ((db10, fs10), None)"
    using w10 by (simp add: Put_def db9_def)
  have run: "run_ops (db0, [(''segment-1'', [])]) [OpPut [0x6B] [1], OpPut [0x6B] [2], OpPut [0x6B] [3], OpPut [0x6B] [4], OpPut [0x6B] [5], OpPut [0x6B] [6], OpPut [0x6B] [7], OpPut [0x6B] [8], OpPut [0x6B] [9], OpPut [0x6B] [10]]
             = Some (replicate 10 (PutResult None), (db10, fs10))"
    by (simp add: p1 p2 p3 p4 p5 p6 p7 p8 p9 p10 numeral_eq_Suc)
  have m: "map_of fs10 ''segment-1'' = Some (Encode \<lparr>e_key = [0x6B], e_value = [1]\<rparr>)" "map_of fs10 ''segment-2'' = Some (Encode \<lparr>e_key = [0x6B], e_value = [2]\<rparr>)" "map_of fs10 ''segment-3'' = Some (Encode \<lparr>e_key = [0x6B], e_value = [3]\<rparr>)" "map_of fs10 ''segment-4'' = Some (Encode \<lparr>e_key = [0x6B], e_value = [4]\<rparr>)" "map_of fs10 ''segment-5'' = Some (Encode \<lparr>e_key = [0x6B], e_value = [5]\<rparr>)" "map_of fs10 ''segment-6'' = Some (Encode \<lparr>e_key = [0x6B], e_value = [6]\<rparr>)" "map_of fs10 ''segment-7'' = Some (Encode \<lparr>e_key = [0x6B], e_value = [7]\<rparr>)" "map_of fs10 ''segment-8'' = Some (Encode \<lparr>e_key = [0x6B], e_value = [8]\<rparr>)" "map_of fs10 ''segment-9'' = Some (Encode \<lparr>e_key = [0x6B], e_value = [9]\<rparr>)" "map_of fs10 ''segment-10'' = Some (Encode \<lparr>e_key = [0x6B], e_value = [10]\<rparr>)"
    by (simp_all add: fs10_def)
  have names: "map fst fs10 = [''segment-1'', ''segment-2'', ''segment-3'', ''segment-4'', ''segment-5'', ''segment-6'', ''segment-7'', ''segment-8'', ''segment-9'', ''segment-10'']"
    by (simp add: fs10_def)
  have g1: "Get (db10, fs10) [0x6B] = Inr [10]"
    using Get_reads_record [of db10 "[0x6B]" "\<lparr>segmentId = 10, offset = 0\<rparr>" fs10 "Encode \<lparr>e_key = [0x6B], e_value = [10]\<rparr>"
        "\<lparr>e_key = [0x6B], e_value = [10]\<rparr>" "[]"]
    by (simp add: db10_def m segmentFilename_small len bufSize_def)
  have rd: "ReadDir fs10 = [''segment-1'', ''segment-10'', ''segment-2'', ''segment-3'', ''segment-4'', ''segment-5'', ''segment-6'', ''segment-7'', ''segment-8'', ''segment-9'']"
    by (simp add: ReadDir_def names)
  have ids: "segmentIds_of (ReadDir fs10) = [1, 10, 2, 3, 4, 5, 6, 7, 8, 9]"
    unfolding rd
    by (simp add: segmentIds_of_def List.map_filter_simps HasPrefix_def TrimPrefix_def
        outFileNamePrefix_def Atoi_def is_digit_def digit_val_def)
  have rs: "recoverSegment fs10 idx sid = Inr (idx([0x6B] \<mapsto> \<lparr>segmentId = sid, offset = 0\<rparr>))"
    if "sid \<in> {1, 2, 3, 4, 5, 6, 7, 8, 9, 10}" for idx sid
    using that recoverSegment_single [of fs10 sid "\<lparr>e_key = [0x6B], e_value = [b]\<rparr>" idx for b]
    by (auto simp: m segmentFilename_small len bufSize_def)
  have ra: "recover_all fs10 [1, 10, 2, 3, 4, 5, 6, 7, 8, 9] (- 1) Map.empty
            = Inr (10, [[0x6B] \<mapsto> \<lparr>segmentId = 9, offset = 0\<rparr>])"
    by (simp add: rs)
  define db11 where "db11 = \<lparr>segmentLimit = 40, currentSegment = Some \<lparr>fname = ''segment-10'', fclosed = False\<rparr>, currentSegmentId = 10, currentOffset = 34, index = [[0x6B] \<mapsto> \<lparr>segmentId = 9, offset = 0\<rparr>], closeCh = False, wg = 1\<rparr>"
  have op2: "OpenWithLimit fs10 40 = Inr (db11, fs10)"
    by (simp add: OpenWithLimit_def loadSegments_def ids ra OpenFile_append_def
        segmentFilename_small m len db11_def del: recover_all.simps)
  have re: "reopen (db10, fs10) = Inr (db11, fs10)"
    by (simp add: reopen_def Close_def File_Close_def Let_def db10_def op2)
  have g2: "Get (db11, fs10) [0x6B] = Inr [9]"
    using Get_reads_record [of db11 "[0x6B]" "\<lparr>segmentId = 9, offset = 0\<rparr>" fs10 "Encode \<lparr>e_key = [0x6B], e_value = [9]\<rparr>"
        "\<lparr>e_key = [0x6B], e_value = [9]\<rparr>" "[]"]
    by (simp add: db11_def m segmentFilename_small len bufSize_def)
  show ?thesis
    apply (rule exI [of _ "(db0, [(''segment-1'', [])])"])
    apply (rule exI [of _ "(db10, fs10)"])
    apply (rule exI [of _ "(db11, fs10)"])
    apply (simp only: o run g1 re g2 fst_conv snd_conv names rd simp_thms)
    apply (simp add: db11_def)
    done
qed

text \<open>
  A second input at which recovery fails, with one segment. A record of 4090 bytes and one of
  36 bytes are written and read back; the segment is 4126 bytes long. After close and
  open the replay takes the first record from the 4096 bytes that the reader has
  buffered, finds six bytes of the second record left in the buffer, decodes them padded
  with zeros, and \<^verbatim>\<open>OpenWithLimit\<close> fails with "corrupted segment".
\<close>

theorem recovery_fails_across_reader_buffer:
  "\<exists>st0 st1.
     OpenWithLimit [] defaultMaxSegmentSize = Inr st0
     \<and> run_ops st0 [OpPut [0x6B] (replicate 4057 0x76), OpGet [0x6B],
                     OpPut [0x6B, 0x31] [0x76, 0x31], OpGet [0x6B, 0x31]]
         = Some ([PutResult None, GetResult (Inr (replicate 4057 0x76)),
                  PutResult None, GetResult (Inr [0x76, 0x31])], st1)
     \<and> snd st1 = [(''segment-1'',
                    Encode \<lparr>e_key = [0x6B], e_value = replicate 4057 0x76\<rparr>
                    @ Encode \<lparr>e_key = [0x6B, 0x31], e_value = [0x76, 0x31]\<rparr>)]
     \<and> reopen st1 = Inl (ErrCorruptedSegment (ErrHashMismatch [0, 0]))"
proof -
  define L where "L = defaultMaxSegmentSize"
  have L: "L = 10485760"
    by (simp add: L_def defaultMaxSegmentSize_def)
  define h where "h = \<lparr>fname = ''segment-1'', fclosed = False\<rparr>"
  define db0 where "db0 = \<lparr>segmentLimit = L, currentSegment = Some h,
           currentSegmentId = 1, currentOffset = 0, index = (Map.empty :: hashIndex),
           closeCh = False, wg = 1\<rparr>"
  define e1 where "e1 = \<lparr>e_key = [0x6B :: byte], e_value = replicate 4057 (0x76 :: byte)\<rparr>"
  define e2 where "e2 = \<lparr>e_key = [0x6B :: byte, 0x31], e_value = [0x76 :: byte, 0x31]\<rparr>"
  define db1 where "db1 = db0\<lparr>index := [[0x6B] \<mapsto> \<lparr>segmentId = 1, offset = 0\<rparr>],
                              currentOffset := 4090\<rparr>"
  define db2 where "db2 = db0\<lparr>index := [[0x6B] \<mapsto> \<lparr>segmentId = 1, offset = 0\<rparr>,
                                         [0x6B, 0x31] \<mapsto> \<lparr>segmentId = 1, offset = 4090\<rparr>],
                              currentOffset := 4126\<rparr>"
  have l1: "length (Encode e1) = 4090" and l2: "length (Encode e2) = 36"
    by (simp_all add: e1_def e2_def length_Encode)
  have o: "OpenWithLimit [] L = Inr (db0, [(''segment-1'', [])])"
    by (simp add: OpenWithLimit_empty db0_def h_def)
  have w1: "writeEntry (db0, [(''segment-1'', [])]) [0x6B] (replicate 4057 0x76)
            = ((db1, [(''segment-1'', Encode e1)]), None)"
    using writeEntry_append_eq [of db0 h "[0x6B]" "replicate 4057 0x76" "[(''segment-1'', [])]"] l1
    by (simp add: db0_def db1_def e1_def L h_def)
  have w2: "writeEntry (db1, [(''segment-1'', Encode e1)]) [0x6B, 0x31] [0x76, 0x31]
            = ((db2, [(''segment-1'', Encode e1 @ Encode e2)]), None)"
    using writeEntry_append_eq [of db1 h "[0x6B, 0x31]" "[0x76, 0x31]"
        "[(''segment-1'', Encode e1)]"] l1 l2
    by (simp add: db0_def db1_def db2_def e1_def e2_def L h_def)
  have g1: "Get (db1, [(''segment-1'', Encode e1)]) [0x6B] = Inr (replicate 4057 0x76)"
    using Get_reads_record [of db1 "[0x6B]" "\<lparr>segmentId = 1, offset = 0\<rparr>"
        "[(''segment-1'', Encode e1)]" "Encode e1" e1 "[]"] l1
    by (simp add: db1_def db0_def segmentFilename_1 bufSize_def e1_def)
  have g2: "Get (db2, [(''segment-1'', Encode e1 @ Encode e2)]) [0x6B, 0x31] = Inr [0x76, 0x31]"
    using Get_reads_record [of db2 "[0x6B, 0x31]" "\<lparr>segmentId = 1, offset = 4090\<rparr>"
        "[(''segment-1'', Encode e1 @ Encode e2)]" "Encode e1 @ Encode e2" e2 "[]"] l1 l2
    by (simp add: db2_def db0_def segmentFilename_1 bufSize_def e2_def)
  have run: "run_ops (db0, [(''segment-1'', [])])
               [OpPut [0x6B] (replicate 4057 0x76), OpGet [0x6B],
                OpPut [0x6B, 0x31] [0x76, 0x31], OpGet [0x6B, 0x31]]
             = Some ([PutResult None, GetResult (Inr (replicate 4057 0x76)),
                      PutResult None, GetResult (Inr [0x76, 0x31])],
                     (db2, [(''segment-1'', Encode e1 @ Encode e2)]))"
    using w1 w2 g1 g2 by (simp add: Put_def db0_def db1_def)
  have t6: "take 6 (Encode e2) = [36, 0, 0, 0, 2, 0]"
    by (simp add: Encode_layout e2_def le32_def)
  have d1: "DecodeFromReader (NewReader (Encode e1 @ Encode e2)) =
              (\<lparr>rbuf = [36, 0, 0, 0, 2, 0], rsrc = drop 6 (Encode e2), rerr = None\<rparr>,
               4090, Inr e1)"
    using DecodeFromReader_Encode [of e1 "Encode e2"] l1 l2 t6
    by (simp add: bufSize_def)
  have f6: "length_field [36, 0, 0, 0, 2, 0] 0 = 36"
    by (simp add: length_field_def Uint32_def)
  have d2: "snd (snd (DecodeFromReader
              \<lparr>rbuf = [36, 0, 0, 0, 2, 0], rsrc = drop 6 (Encode e2), rerr = None\<rparr>))
            = Inl (ErrHashMismatch [0, 0])"
    using DecodeFromReader_buffered
      [of "\<lparr>rbuf = [36, 0, 0, 0, 2, 0], rsrc = drop 6 (Encode e2), rerr = None\<rparr>"]
      Decode_cut_record
    by (simp add: f6)
  have rl: "recover_loop 1 (NewReader (Encode e1 @ Encode e2)) 0 Map.empty
            = Inl (ErrCorruptedSegment (ErrHashMismatch [0, 0]))"
  proof -
    have "recover_loop 1 (NewReader (Encode e1 @ Encode e2)) 0 Map.empty
          = recover_loop 1 \<lparr>rbuf = [36, 0, 0, 0, 2, 0], rsrc = drop 6 (Encode e2), rerr = None\<rparr>
              (0 + int 4090) [e_key e1 \<mapsto> \<lparr>segmentId = 1, offset = 0\<rparr>]"
      by (subst recover_loop.simps) (simp add: d1)
    also have "\<dots> = Inl (ErrCorruptedSegment (ErrHashMismatch [0, 0]))"
      using d2
      by (subst recover_loop.simps)
         (cases "DecodeFromReader
              \<lparr>rbuf = [36, 0, 0, 0, 2, 0], rsrc = drop 6 (Encode e2), rerr = None\<rparr>", simp)
    finally show ?thesis .
  qed
  have op2: "OpenWithLimit [(''segment-1'', Encode e1 @ Encode e2)] L
             = Inl (ErrCorruptedSegment (ErrHashMismatch [0, 0]))"
    by (simp add: OpenWithLimit_def loadSegments_def ReadDir_def segmentIds_of_def
        List.map_filter_simps HasPrefix_def TrimPrefix_def outFileNamePrefix_def Atoi_def
        is_digit_def digit_val_def recoverSegment_def segmentFilename_1 rl)
  have re: "reopen (db2, [(''segment-1'', Encode e1 @ Encode e2)])
            = Inl (ErrCorruptedSegment (ErrHashMismatch [0, 0]))"
    by (simp add: reopen_def Close_def File_Close_def Let_def db2_def db0_def h_def op2)
  show ?thesis
    apply (rule exI [of _ "(db0, [(''segment-1'', [])])"])
    apply (rule exI [of _ "(db2, [(''segment-1'', Encode e1 @ Encode e2)])"])
    apply (simp only: o [unfolded L_def] run re snd_conv simp_thms)
    apply (simp add: e1_def e2_def)
    done
qed

section \<open>Tampered records\<close>

text \<open>
  A single flipped bit in the checksum region always ends in the hash-mismatch error. A
  single flipped bit in the value region ends in it exactly when the SHA-1 of the
  changed value is not the SHA-1 of the original one.
\<close>

lemma flip_bit_byte_neq: "j < 8 \<Longrightarrow> flip_bit j (b :: byte) \<noteq> b"
proof
  assume j: "j < 8" and "flip_bit j b = b"
  then have "bit (flip_bit j b) j = bit b j"
    by simp
  then show False
    using j by (simp add: bit_flip_bit_iff)
qed

lemma list_update_neq: "i < length xs \<Longrightarrow> x \<noteq> xs ! i \<Longrightarrow> xs[i := x] \<noteq> xs"
  by (metis nth_list_update_eq)

lemma Encode_split:
  "Encode e = (le32 (word_of_nat (length (e_key e) + length (e_value e) + 32))
               @ le32 (word_of_nat (length (e_key e))) @ e_key e
               @ le32 (word_of_nat (length (e_value e)))) @ e_value e @ sha1_Sum (e_value e)"
  by (simp add: Encode_layout)

lemma Decode_checksum_flipped:
  assumes "length (e_key e) < 2 ^ 32" and "length (e_value e) < 2 ^ 32"
    and "12 + length (e_key e) + length (e_value e) \<le> i"
    and "i < 12 + length (e_key e) + length (e_value e) + 20" and "j < 8"
  shows "Decode ((Encode e)[i := flip_bit j (Encode e ! i)]) = Inl (ErrHashMismatch (e_key e))"
proof -
  define pre where "pre = le32 (word_of_nat (length (e_key e) + length (e_value e) + 32))
      @ le32 (word_of_nat (length (e_key e))) @ e_key e
      @ le32 (word_of_nat (length (e_value e))) @ e_value e"
  define h where "h = sha1_Sum (e_value e)"
  define i' where "i' = i - length pre"
  have lp: "length pre = 12 + length (e_key e) + length (e_value e)"
    by (simp add: pre_def length_le32)
  have lh: "length h = 20"
    by (simp add: h_def length_sha1_Sum)
  have i': "i' < 20" "i = length pre + i'"
    using assms(3,4) by (simp_all add: i'_def lp)
  have E: "Encode e = pre @ h"
    by (simp add: Encode_layout pre_def h_def)
  have "(Encode e)[i := flip_bit j (Encode e ! i)] = pre @ h[i' := flip_bit j (h ! i')]"
    unfolding E i'(2) by (simp add: list_update_append nth_append)
  moreover have "h[i' := flip_bit j (h ! i')] \<noteq> h"
    using i'(1) lh flip_bit_byte_neq [OF assms(5)] by (intro list_update_neq) simp_all
  moreover have "Decode (le32 (word_of_nat (length (e_key e) + length (e_value e) + 32))
      @ le32 (word_of_nat (length (e_key e))) @ e_key e
      @ le32 (word_of_nat (length (e_value e))) @ e_value e @ h[i' := flip_bit j (h ! i')])
    = (if h[i' := flip_bit j (h ! i')] = sha1_Sum (e_value e)
       then Inr \<lparr>e_key = e_key e, e_value = e_value e\<rparr>
       else Inl (ErrHashMismatch (e_key e)))"
    using assms(1,2) by (intro Decode_record) (simp_all add: length_le32 unat_word_of_nat_u32)
  ultimately show ?thesis
    by (simp add: pre_def h_def)
qed

lemma Decode_value_flipped:
  assumes "length (e_key e) < 2 ^ 32" and "length (e_value e) < 2 ^ 32"
    and "12 + length (e_key e) \<le> i"
    and "i < 12 + length (e_key e) + length (e_value e)" and "j < 8"
  shows "\<exists>v'. v' \<noteq> e_value e \<and> length v' = length (e_value e)
           \<and> Decode ((Encode e)[i := flip_bit j (Encode e ! i)]) =
               (if sha1_Sum v' = sha1_Sum (e_value e)
                then Inr \<lparr>e_key = e_key e, e_value = v'\<rparr>
                else Inl (ErrHashMismatch (e_key e)))"
proof -
  define pre where "pre = le32 (word_of_nat (length (e_key e) + length (e_value e) + 32))
      @ le32 (word_of_nat (length (e_key e))) @ e_key e
      @ le32 (word_of_nat (length (e_value e)))"
  define v where "v = e_value e"
  define h where "h = sha1_Sum (e_value e)"
  define i' where "i' = i - length pre"
  define v' where "v' = v[i' := flip_bit j (v ! i')]"
  have lp: "length pre = 12 + length (e_key e)"
    by (simp add: pre_def length_le32)
  have i': "i' < length v" "i = length pre + i'"
    using assms(3,4) by (simp_all add: i'_def lp v_def)
  have E: "Encode e = pre @ v @ h"
    by (simp add: Encode_layout pre_def h_def v_def)
  have "(Encode e)[i := flip_bit j (Encode e ! i)] = pre @ v' @ h"
    unfolding E i'(2) v'_def using i'(1) by (simp add: list_update_append nth_append)
  moreover have ne: "v' \<noteq> v"
    unfolding v'_def using i'(1) flip_bit_byte_neq [OF assms(5)] by (intro list_update_neq) simp_all
  moreover have "Decode (le32 (word_of_nat (length (e_key e) + length (e_value e) + 32))
      @ le32 (word_of_nat (length (e_key e))) @ e_key e
      @ le32 (word_of_nat (length (e_value e))) @ v' @ h)
    = (if h = sha1_Sum v' then Inr \<lparr>e_key = e_key e, e_value = v'\<rparr>
       else Inl (ErrHashMismatch (e_key e)))"
    using assms(1,2)
    by (intro Decode_record) (simp_all add: length_le32 unat_word_of_nat_u32 v'_def v_def)
  ultimately have "v' \<noteq> e_value e \<and> length v' = length (e_value e)
           \<and> Decode ((Encode e)[i := flip_bit j (Encode e ! i)]) =
               (if sha1_Sum v' = sha1_Sum (e_value e)
                then Inr \<lparr>e_key = e_key e, e_value = v'\<rparr>
                else Inl (ErrHashMismatch (e_key e)))"
    by (auto simp: pre_def h_def v_def v'_def)
  then show ?thesis
    by blast
qed

section \<open>Last write wins for records within the reader's buffer\<close>

text \<open>
  Segment file names determine the id: \<^verbatim>\<open>%d\<close> prints a number that reads back as
  itself, with a minus sign only in front of a negative one.
\<close>

lemma small_cases:
  "n < 10 \<Longrightarrow> n = 0 \<or> n = 1 \<or> n = 2 \<or> n = 3 \<or> n = 4 \<or> n = 5 \<or> n = 6 \<or> n = 7 \<or> n = 8 \<or> n = (9 :: nat)"
  by arith

lemma digit_val_digit: "n < 10 \<Longrightarrow> digit_val (''0123456789'' ! n) = n"
  using small_cases [of n] by (auto simp: digit_val_def)

lemma digit_not_minus: "n < 10 \<Longrightarrow> ''0123456789'' ! n \<noteq> CHR ''-''"
  using small_cases [of n] by auto

lemma read_nat_snoc: "read_nat (s @ [c]) = read_nat s * 10 + digit_val c"
  by (simp add: read_nat_def)

lemma read_nat_show_nat: "read_nat (show_nat n) = n"
proof (induction n rule: show_nat.induct)
  case (1 n)
  show ?case
  proof (cases "n < 10")
    case True
    then show ?thesis
      by (subst show_nat.simps) (simp add: read_nat_def digit_val_digit)
  next
    case False
    then have "read_nat (show_nat n) = read_nat (show_nat (n div 10)) * 10 + n mod 10"
      by (subst show_nat.simps) (simp add: read_nat_snoc digit_val_digit)
    then show ?thesis
      using 1 False by simp
  qed
qed

lemma show_nat_no_minus: "CHR ''-'' \<notin> set (show_nat n)"
proof (induction n rule: show_nat.induct)
  case (1 n)
  show ?case
  proof (cases "n < 10")
    case True
    then show ?thesis
      using digit_not_minus [of n] by (subst show_nat.simps) auto
  next
    case False
    then show ?thesis
      using 1 digit_not_minus [of "n mod 10"] by (subst show_nat.simps) auto
  qed
qed

lemma show_nat_inj: "show_nat a = show_nat b \<Longrightarrow> a = b"
  by (metis read_nat_show_nat)

lemma show_int_inj: "show_int a = show_int b \<Longrightarrow> a = b"
proof -
  assume e: "show_int a = show_int b"
  have m: "CHR ''-'' # show_nat x \<noteq> show_nat y" for x y
    using show_nat_no_minus [of y] by (metis list.set_intros(1))
  show ?thesis
  proof (cases "a < 0"; cases "b < 0")
    assume "a < 0" "b < 0"
    then have "show_nat (nat (- a)) = show_nat (nat (- b))"
      using e by (simp add: show_int_def)
    then have "nat (- a) = nat (- b)"
      by (rule show_nat_inj)
    then show ?thesis
      using \<open>a < 0\<close> \<open>b < 0\<close> by simp
  next
    assume "a < 0" "\<not> b < 0"
    then show ?thesis
      using e m by (simp add: show_int_def)
  next
    assume "\<not> a < 0" "b < 0"
    then show ?thesis
      using e m [of "nat (- b)" "nat a"] by (simp add: show_int_def)
  next
    assume "\<not> a < 0" "\<not> b < 0"
    then have "show_nat (nat a) = show_nat (nat b)"
      using e by (simp add: show_int_def)
    then have "nat a = nat b"
      by (rule show_nat_inj)
    then show ?thesis
      using \<open>\<not> a < 0\<close> \<open>\<not> b < 0\<close> by simp
  qed
qed

lemma segmentFilename_inj: "segmentFilename a = segmentFilename b \<longleftrightarrow> a = b"
  using show_int_inj by (auto simp: segmentFilename_def)

text \<open>
  On an engine in working order, with a segment id below the largest 64-bit \<^verbatim>\<open>int\<close>,
  every \<^verbatim>\<open>Put\<close> succeeds, and the index then points at
  the record just written. When that record is no longer than the 4096 bytes of the
  reader's buffer, \<^verbatim>\<open>Get\<close> reads it back: after \<^verbatim>\<open>put(k, v1)\<close> and
  \<^verbatim>\<open>put(k, v2)\<close>, \<^verbatim>\<open>get(k)\<close> returns \<open>v2\<close>. This is as far as claim C7 holds.
\<close>

lemma engine_ok_OpenWithLimit_empty:
  "OpenWithLimit [] limit = Inr st \<Longrightarrow> engine_ok st"
  by (auto simp: OpenWithLimit_empty engine_ok_def segmentFilename_1 segmentFilename_inj
      simp flip: segmentFilename_1)

lemma Put_engine_ok:
  assumes "engine_ok st"
    and "- (2 ^ 63) \<le> currentSegmentId (fst st)" and "currentSegmentId (fst st) < 2 ^ 63 - 1"
  shows "\<exists>st1 ref c. Put st k v = Some (st1, None) \<and> engine_ok st1
           \<and> currentSegmentId (fst st) \<le> currentSegmentId (fst st1)
           \<and> currentSegmentId (fst st1) \<le> currentSegmentId (fst st) + 1
           \<and> index (fst st1) k = Some ref \<and> 0 \<le> offset ref
           \<and> map_of (snd st1) (segmentFilename (segmentId ref)) = Some c
           \<and> drop (nat (offset ref)) c = Encode \<lparr>e_key = k, e_value = v\<rparr>"
proof -
  obtain db fs where st: "st = (db, fs)"
    by (cases st)
  define sid where "sid = currentSegmentId db"
  define h where "h = \<lparr>fname = segmentFilename sid, fclosed = False\<rparr>"
  define data where "data = Encode \<lparr>e_key = k, e_value = v\<rparr>"
  from assms obtain c where ok: "\<not> closeCh db" "wg db \<noteq> 0" "currentSegment db = Some h"
    "map_of fs (segmentFilename sid) = Some c" "currentOffset db = int (length c)"
    "\<And>j. sid < j \<Longrightarrow> map_of fs (segmentFilename j) = None"
    by (auto simp: engine_ok_def st sid_def h_def)
  have p: "Put st k v = Some (writeEntry (db, fs) k v)"
    using ok(1,2) by (simp add: Put_def st)
  have hc: "\<not> fclosed h" "fname h = segmentFilename sid"
    by (simp_all add: h_def)
  have b: "- (2 ^ 63) \<le> currentSegmentId db" "currentSegmentId db < 2 ^ 63 - 1"
    using assms(2,3) by (simp_all add: st)
  show ?thesis
  proof (cases "segmentLimit db < currentOffset db + int (length data)")
    case True
    have n: "map_of fs (segmentFilename (sid + 1)) = None"
      by (rule ok(6)) simp
    define db1 where "db1 = db\<lparr>currentSegmentId := sid + 1,
         currentSegment := Some \<lparr>fname = segmentFilename (sid + 1), fclosed = False\<rparr>,
         index := (index db)(k \<mapsto> \<lparr>segmentId = sid + 1, offset = 0\<rparr>),
         currentOffset := int (length data)\<rparr>"
    define fs1 where "fs1 = AList.update (segmentFilename (sid + 1)) data
        (fst (OpenFile_create fs (segmentFilename (sid + 1))))"
    have w: "writeEntry (db, fs) k v = ((db1, fs1), None)"
      using writeEntry_rotate_eq [OF ok(3) hc(1) _ b, of k v fs] True n
      by (simp add: data_def sid_def db1_def fs1_def)
    have m: "map_of fs1 = (map_of fs)(segmentFilename (sid + 1) \<mapsto> data)"
      by (simp add: fs1_def update_conv' map_of_OpenFile_create)
    have "engine_ok (db1, fs1)"
      using ok(1,2,6) by (simp add: engine_ok_def db1_def m segmentFilename_inj)
    moreover have "index db1 k = Some \<lparr>segmentId = sid + 1, offset = 0\<rparr>"
      by (simp add: db1_def)
    moreover have "map_of fs1 (segmentFilename (sid + 1)) = Some data"
      by (simp add: m)
    moreover have "currentSegmentId db1 = currentSegmentId db + 1"
      by (simp add: db1_def sid_def)
    ultimately show ?thesis
      using p w by (auto simp: data_def st)
  next
    case False
    define db1 where "db1 = db\<lparr>index := (index db)(k \<mapsto> \<lparr>segmentId = sid, offset = currentOffset db\<rparr>),
         currentOffset := currentOffset db + int (length data)\<rparr>"
    define fs1 where "fs1 = AList.update (segmentFilename sid) (c @ data) fs"
    have w: "writeEntry (db, fs) k v = ((db1, fs1), None)"
      using writeEntry_append_eq [OF ok(3) hc(1), of k v fs] False ok(4)
      by (simp add: data_def sid_def db1_def fs1_def h_def)
    have m: "map_of fs1 = (map_of fs)(segmentFilename sid \<mapsto> c @ data)"
      by (simp add: fs1_def update_conv')
    have "engine_ok (db1, fs1)"
      using ok by (simp add: engine_ok_def db1_def m segmentFilename_inj sid_def h_def)
    moreover have "index db1 k = Some \<lparr>segmentId = sid, offset = int (length c)\<rparr>"
      by (simp add: db1_def ok(5))
    moreover have "map_of fs1 (segmentFilename sid) = Some (c @ data)"
      by (simp add: m)
    moreover have "currentSegmentId db1 = currentSegmentId db"
      by (simp add: db1_def)
    ultimately show ?thesis
      using p w by (auto simp: data_def st)
  qed
qed

lemma last_write_wins_within_buffer:
  assumes "engine_ok st" and "length (Encode \<lparr>e_key = k, e_value = v2\<rparr>) \<le> bufSize"
    and "- (2 ^ 63) \<le> currentSegmentId (fst st)" and "currentSegmentId (fst st) < 2 ^ 63 - 2"
  shows "\<exists>st1 st2. Put st k v1 = Some (st1, None) \<and> Put st1 k v2 = Some (st2, None)
           \<and> engine_ok st2 \<and> Get st2 k = Inr v2"
proof -
  have "currentSegmentId (fst st) < 2 ^ 63 - 1"
    using assms(4) by simp
  then obtain st1 where 1: "Put st k v1 = Some (st1, None)" "engine_ok st1"
    "currentSegmentId (fst st) \<le> currentSegmentId (fst st1)"
    "currentSegmentId (fst st1) \<le> currentSegmentId (fst st) + 1"
    using Put_engine_ok [OF assms(1,3), of k v1] by blast
  have b: "- (2 ^ 63) \<le> currentSegmentId (fst st1)" "currentSegmentId (fst st1) < 2 ^ 63 - 1"
    using 1(3,4) assms(3,4) by simp_all
  obtain st2 ref c where 2: "Put st1 k v2 = Some (st2, None)" "engine_ok st2"
    "index (fst st2) k = Some ref" "0 \<le> offset ref"
    "map_of (snd st2) (segmentFilename (segmentId ref)) = Some c"
    "drop (nat (offset ref)) c = Encode \<lparr>e_key = k, e_value = v2\<rparr>"
    using Put_engine_ok [OF 1(2) b, of k v2] by blast
  have "Get (fst st2, snd st2) k = Inr (e_value \<lparr>e_key = k, e_value = v2\<rparr>)"
    using 2(3-6) assms(2)
    by (intro Get_reads_record [where rest = "[]"]) simp_all
  then show ?thesis
    using 1 2 by (cases st2) auto
qed

lemma last_write_wins_on_empty_directory:
  assumes "length (Encode \<lparr>e_key = k, e_value = v2\<rparr>) \<le> bufSize"
  shows "\<exists>db fs. session [] limit [OpPut k v1, OpPut k v2, OpGet k]
           = Inr (Some ([PutResult None, PutResult None, GetResult (Inr v2)], view_of db, fs))"
proof -
  obtain st where o: "OpenWithLimit [] limit = Inr st"
    by (simp add: OpenWithLimit_empty)
  obtain st1 st2 where p: "Put st k v1 = Some (st1, None)" "Put st1 k v2 = Some (st2, None)"
    "Get st2 k = Inr v2"
    using last_write_wins_within_buffer [OF engine_ok_OpenWithLimit_empty [OF o] assms, of v1]
      o by (auto simp: OpenWithLimit_empty)
  obtain db fs where s2: "st2 = (db, fs)"
    by (cases st2)
  have "session [] limit [OpPut k v1, OpPut k v2, OpGet k]
        = Inr (Some ([PutResult None, PutResult None, GetResult (Inr v2)], view_of db, fs))"
    using o p by (simp add: session_def s2)
  then show ?thesis
    by blast
qed

end
